theory Spec2Isabelle
  imports Complex_Main
begin

section \<open>The enhancedjson parser of telegraf: data model\<close>

text \<open>
  The development follows \<^verbatim>\<open>plugins/parsers/enhancedjson/parser.go\<close>. The parser
  reads a JSON document through the gjson library, expands arrays into separate
  metrics, flattens objects into the fields of one metric, and converts scalar values
  to a configured type.

  What the parser takes from outside this file is modelled as follows.
  \<^item> A \<^verbatim>\<open>gjson.Result\<close> is a \<open>json option\<close>: \<open>None\<close> is the result of a query
    that matched nothing (\<^verbatim>\<open>Exists()\<close> is false), \<open>Some v\<close> the JSON value found.
  \<^item> A JSON number is a \<^verbatim>\<open>float64\<close> in gjson. Every finite \<^verbatim>\<open>float64\<close> is a
    rational, and the model holds a number as a \<open>rat\<close>. It identifies \<open>-0\<close> with
    \<open>0\<close> and has no infinities (gjson yields one for a literal beyond the
    \<^verbatim>\<open>float64\<close> range).
  \<^item> \<^verbatim>\<open>gjson.GetBytes(input, query)\<close> is a black box for the parser; the document
    is given as the function from queries to results.
  \<^item> The timestamp and the (always empty) tag set of a metric are left out: the
    parser writes them once at creation and never reads them.

  The model covers \<^verbatim>\<open>convertType\<close>, \<^verbatim>\<open>expandArray\<close>, \<^verbatim>\<open>combineObject\<close>,
  \<^verbatim>\<open>processBasicFields\<close> and \<^verbatim>\<open>processObjectFields\<close>. \<^verbatim>\<open>Parse\<close>, which checks
  that the input is valid JSON and appends the results of the two processors for each
  configuration, is not modelled; no statement below is about it.
\<close>

datatype json =
    JNull
  | JBool bool
  | JNumber rat
  | JString string
  | JArray "json list"
  | JObject "(string \<times> json) list"

type_synonym Result = "json option"

type_synonym document = "string \<Rightarrow> Result"

definition GetBytes :: "document \<Rightarrow> string \<Rightarrow> Result" where
  "GetBytes input query = input query"

definition IsObject :: "Result \<Rightarrow> bool" where
  "IsObject r = (case r of Some (JObject kvs) \<Rightarrow> True | _ \<Rightarrow> False)"

definition IsArray :: "Result \<Rightarrow> bool" where
  "IsArray r = (case r of Some (JArray vs) \<Rightarrow> True | _ \<Rightarrow> False)"

definition Exists :: "Result \<Rightarrow> bool" where
  "Exists r = (case r of Some v \<Rightarrow> True | None \<Rightarrow> False)"

text \<open>
  \<^verbatim>\<open>Result.ForEach\<close> calls its iterator on the direct children in document order,
  until the iterator returns false. It does nothing on a result that does not exist,
  and on a scalar it calls the iterator once, with an empty key and the scalar itself.
  The elements of an array come with an empty key (the zero \<^verbatim>\<open>Result\<close>, as in the
  gjson releases this parser was written against; the parser reads the key of an array
  element nowhere but in an object selection that resolves to an array).
  \<open>ForEach r\<close> is the list of the (key, value) pairs the iterator is offered.
\<close>

fun ForEach :: "Result \<Rightarrow> (string \<times> json) list" where
  "ForEach None = []"
| "ForEach (Some (JArray vs)) = map (\<lambda>v. ([], v)) vs"
| "ForEach (Some (JObject kvs)) = kvs"
| "ForEach (Some v) = [([], v)]"

text \<open>
  The values of Go's \<^verbatim>\<open>interface{}\<close> that the parser handles: \<^verbatim>\<open>nil\<close>, a
  \<^verbatim>\<open>bool\<close>, a \<^verbatim>\<open>float64\<close>, a \<^verbatim>\<open>string\<close>, an integer (\<^verbatim>\<open>int\<close> from
  \<^verbatim>\<open>strconv.Atoi\<close>, \<^verbatim>\<open>int64\<close> from a cast; both are 64 bits wide on the 64-bit
  targets and a metric stores either as \<^verbatim>\<open>int64\<close>), and the slice or map that
  \<^verbatim>\<open>Result.Value()\<close> builds for an array or an object (\<open>VJSON\<close>, holding the subtree).
\<close>

datatype gvalue =
    VNil
  | VBool bool
  | VFloat rat
  | VString string
  | VInt int
  | VJSON json

fun Value :: "Result \<Rightarrow> gvalue" where
  "Value None = VNil"
| "Value (Some JNull) = VNil"
| "Value (Some (JBool b)) = VBool b"
| "Value (Some (JNumber x)) = VFloat x"
| "Value (Some (JString s)) = VString s"
| "Value (Some v) = VJSON v"

subsection \<open>Metrics\<close>

text \<open>
  Modelled from the spec: the metric type of \<^verbatim>\<open>github.com/influxdata/telegraf/metric\<close>
  is not among the source files. The spec gives its fields as insertion-ordered, with
  keys unique within a row and later writes to the same key overwriting. \<open>AddField\<close>
  replaces the value of a key that is present, in place, and appends a new key at the
  end; \<open>FieldList\<close> is the list of (key, value) pairs that \<^verbatim>\<open>FieldList()\<close>
  returns and \<open>name\<close> what \<^verbatim>\<open>Name()\<close> returns.
\<close>

record metric =
  name :: string
  FieldList :: "(string \<times> gvalue) list"

definition metric_New :: "string \<Rightarrow> metric" where
  "metric_New metricName = \<lparr>name = metricName, FieldList = []\<rparr>"

fun setField :: "string \<Rightarrow> gvalue \<Rightarrow> (string \<times> gvalue) list \<Rightarrow> (string \<times> gvalue) list" where
  "setField k v [] = [(k, v)]"
| "setField k v (f # fs) = (if fst f = k then (k, v) # fs else f # setField k v fs)"

definition AddField :: "string \<Rightarrow> gvalue \<Rightarrow> metric \<Rightarrow> metric" where
  "AddField k v m = m\<lparr>FieldList := setField k v (FieldList m)\<rparr>"

text \<open>
  The loop \<^verbatim>\<open>for _, f := range p.FieldList() { c.AddField(f.Key, f.Value) }\<close>, which
  the parser runs in three places.
\<close>

definition copyFields :: "metric \<Rightarrow> metric \<Rightarrow> metric" where
  "copyFields p c = fold (\<lambda>f c'. AddField (fst f) (snd f) c') (FieldList p) c"

subsection \<open>Configuration and working rows\<close>

record BasicField =
  Query :: string
  Name :: string
  Type :: string

text \<open>\<open>OQuery\<close> is the field \<^verbatim>\<open>Query\<close> of \<^verbatim>\<open>ObjectField\<close>.\<close>

record ObjectField =
  OQuery :: string
  NameMap :: "string \<rightharpoonup> string"
  TypeMap :: "string \<rightharpoonup> string"

record MetricNode =
  RootFieldName :: string
  DesiredType :: string
  Metric :: metric
  Result :: Result

datatype error =
    EncounteredObject
  | UseObjectField
  | UnableToConvert string string
  | UnknownFormat string

section \<open>Library functions the parser calls\<close>

text \<open>
  \<^verbatim>\<open>strconv.Atoi\<close>: an optional sign and then one or more decimal digits and nothing
  else; the value must fit a 64-bit \<^verbatim>\<open>int\<close>. A digit is a byte from 48 (\<^verbatim>\<open>'0'\<close>) to
  57 (\<^verbatim>\<open>'9'\<close>).
\<close>

definition digit_of :: "char \<Rightarrow> nat option" where
  "digit_of c =
     (let code = (of_char c :: nat)
      in if 48 \<le> code \<and> code \<le> 57 then Some (code - 48) else None)"

fun digits_value :: "string \<Rightarrow> nat \<Rightarrow> nat option" where
  "digits_value [] acc = Some acc"
| "digits_value (c # cs) acc =
     (case digit_of c of None \<Rightarrow> None | Some d \<Rightarrow> digits_value cs (10 * acc + d))"

definition Atoi :: "string \<Rightarrow> int option" where
  "Atoi s =
     (let neg = (case s of c # cs \<Rightarrow> c = CHR ''-'' | [] \<Rightarrow> False);
          ds = (case s of c # cs \<Rightarrow> if c = CHR ''-'' \<or> c = CHR ''+'' then cs else s | [] \<Rightarrow> s)
      in if ds = [] then None
         else (case digits_value ds 0 of
                 None \<Rightarrow> None
               | Some n \<Rightarrow>
                   if neg then (if n \<le> 2 ^ 63 then Some (- int n) else None)
                   else (if n < 2 ^ 63 then Some (int n) else None)))"

text \<open>\<^verbatim>\<open>strconv.ParseBool\<close> accepts exactly these twelve spellings.\<close>

definition ParseBool :: "string \<Rightarrow> bool option" where
  "ParseBool s =
     (if s = ''1'' \<or> s = ''t'' \<or> s = ''T'' \<or> s = ''TRUE'' \<or> s = ''true'' \<or> s = ''True''
        then Some True
      else if s = ''0'' \<or> s = ''f'' \<or> s = ''F'' \<or> s = ''FALSE'' \<or> s = ''false'' \<or> s = ''False''
        then Some False
      else None)"

definition FormatBool :: "bool \<Rightarrow> string" where
  "FormatBool b = (if b then ''true'' else ''false'')"

text \<open>
  Three library results are not computed here; every function of the parser takes
  them in a record, and every theorem holds for all of them:
  \<^item> \<open>ParseFloat\<close>: \<^verbatim>\<open>strconv.ParseFloat(s, 64)\<close>, \<open>None\<close> when it returns an error;
  \<^item> \<open>Sprint\<close>: \<^verbatim>\<open>fmt.Sprint\<close> of a \<^verbatim>\<open>float64\<close>;
  \<^item> \<open>Int64OutOfRange\<close>: the result of the cast \<^verbatim>\<open>int64(x)\<close> for a float whose
    integer part does not fit 64 bits, which Go leaves to the implementation.
\<close>

record golib =
  ParseFloat :: "string \<Rightarrow> rat option"
  Sprint :: "rat \<Rightarrow> string"
  Int64OutOfRange :: "rat \<Rightarrow> int"

text \<open>The cast \<^verbatim>\<open>int64(x)\<close> of a float: the fraction is discarded (towards zero).\<close>

definition float_trunc :: "rat \<Rightarrow> int" where
  "float_trunc x = (if 0 \<le> x then \<lfloor>x\<rfloor> else \<lceil>x\<rceil>)"

definition int64_of_float :: "golib \<Rightarrow> rat \<Rightarrow> int" where
  "int64_of_float L x =
     (if - (2 ^ 63) \<le> float_trunc x \<and> float_trunc x < 2 ^ 63 then float_trunc x
      else Int64OutOfRange L x)"

text \<open>\<^verbatim>\<open>strings.Split(s, sep)\<close> for a separator of one character.\<close>

fun Split :: "string \<Rightarrow> char \<Rightarrow> string list" where
  "Split [] sep = [[]]"
| "Split (c # cs) sep =
     (if c = sep then [] # Split cs sep
      else (case Split cs sep of
              w # ws \<Rightarrow> (c # w) # ws
            | [] \<Rightarrow> [[c]]))"

text \<open>
  \<^verbatim>\<open>s := strings.Split(query, "."); fieldName = s[len(s)-1]\<close>. The index is in range:
  \<open>Split\<close> never returns the empty list (lemma \<open>Split_not_Nil\<close>).
\<close>

definition lastSegment :: "string \<Rightarrow> string" where
  "lastSegment query = (let s = Split query (CHR ''.'') in s ! (length s - 1))"

text \<open>\<^verbatim>\<open>strings.ReplaceAll(fieldName, " ", "")\<close>.\<close>

definition removeSpaces :: "string \<Rightarrow> string" where
  "removeSpaces s = filter (\<lambda>c. c \<noteq> CHR '' '') s"

section \<open>convertType\<close>

text \<open>
  The type switch on the input, then the switch on the desired type. A branch of the
  inner switch that does not return falls through to the final \<^verbatim>\<open>return input, nil\<close>;
  the \<^verbatim>\<open>default\<close> branch of the type switch is an error.
\<close>

definition convertType :: "golib \<Rightarrow> gvalue \<Rightarrow> string \<Rightarrow> string \<Rightarrow> error + gvalue" where
  "convertType L input desiredType fname =
     (case input of
        VString s \<Rightarrow>
          if desiredType \<noteq> ''string'' then
            if desiredType = ''int'' then
              (case Atoi s of
                 None \<Rightarrow> Inl (UnableToConvert fname ''int'')
               | Some r \<Rightarrow> Inr (VInt r))
            else if desiredType = ''float'' then
              (case ParseFloat L s of
                 None \<Rightarrow> Inl (UnableToConvert fname ''float'')
               | Some r \<Rightarrow> Inr (VFloat r))
            else if desiredType = ''bool'' then
              (case ParseBool s of
                 None \<Rightarrow> Inl (UnableToConvert fname ''bool'')
               | Some r \<Rightarrow> Inr (VBool r))
            else Inr input
          else Inr input
      | VBool b \<Rightarrow>
          if desiredType \<noteq> ''bool'' then
            if desiredType = ''string'' then Inr (VString (FormatBool b))
            else if desiredType = ''int'' then (if b then Inr (VInt 1) else Inr (VInt 0))
            else Inr input
          else Inr input
      | VFloat x \<Rightarrow>
          if desiredType \<noteq> ''float'' then
            if desiredType = ''string'' then Inr (VString (Sprint L x))
            else if desiredType = ''int'' then Inr (VInt (int64_of_float L x))
            else if desiredType = ''bool'' then
              (if x = 0 then Inr (VBool False)
               else if x = 1 then Inr (VBool True)
               else Inl (UnableToConvert fname ''bool''))
            else Inr input
          else Inr input
      | _ \<Rightarrow> Inl (UnknownFormat fname))"

section \<open>expandArray\<close>

text \<open>
  \<open>expandArray_each\<close> is the closure handed to \<^verbatim>\<open>result.ForEach\<close>, run over the
  children that are left. Its state is the pair of the two variables the closure
  captures: \<^verbatim>\<open>results\<close> and the outer \<^verbatim>\<open>err\<close>. Returning the state without
  going on is the closure's \<^verbatim>\<open>return false\<close>.

  The closure assigns the outer \<^verbatim>\<open>err\<close> for an object element only. In the two other
  failing branches \<^verbatim>\<open>r, err := p.expandArray(...)\<close> and
  \<^verbatim>\<open>v, err := p.convertType(...)\<close> declare a new \<^verbatim>\<open>err\<close> inside the closure, so the
  outer one keeps its value.

  The row built for a nested array and the row appended for a scalar element set no
  \<^verbatim>\<open>DesiredType\<close>: it is the empty string there.

  Each element gets a metric of its own (\<^verbatim>\<open>metric.New\<close>), so no two rows of the
  result share a metric. Only the branch for a scalar result writes to the metric it
  was given, and no caller reads that metric again but through the returned row.
\<close>

text \<open>The size of the subtree a row points to: the measure of the recursion.\<close>

definition rsize :: "Result \<Rightarrow> nat" where
  "rsize r = (case r of None \<Rightarrow> 0 | Some v \<Rightarrow> size v)"

function expandArray :: "golib \<Rightarrow> MetricNode \<Rightarrow> string \<Rightarrow> error + MetricNode list"
  and expandArray_each ::
    "golib \<Rightarrow> MetricNode \<Rightarrow> string \<Rightarrow> (string \<times> json) list \<Rightarrow>
       MetricNode list \<times> error option \<Rightarrow> MetricNode list \<times> error option"
where
  "expandArray L result metricName =
     (if IsObject (Result result) then Inl EncounteredObject
      else if IsArray (Result result) then
        (case expandArray_each L result metricName (ForEach (Result result)) ([], None) of
           (results, Some err) \<Rightarrow> Inl err
         | (results, None) \<Rightarrow> Inr results)
      else if Exists (Result result) then
        (case convertType L (Value (Result result)) (DesiredType result) (RootFieldName result) of
           Inl err \<Rightarrow> Inl err
         | Inr v \<Rightarrow> Inr [result\<lparr>Metric := AddField (RootFieldName result) v (Metric result)\<rparr>])
      else Inr [])"
| "expandArray_each L result metricName [] st = st"
| "expandArray_each L result metricName ((key, val) # rest) (results, err) =
     (if IsObject (Some val) then (results, Some EncounteredObject)
      else
        let m = copyFields (Metric result) (metric_New metricName) in
        if IsArray (Some val) then
          (case expandArray L
                  \<lparr>RootFieldName = RootFieldName result, DesiredType = [],
                   Metric = m, Result = Some val\<rparr> metricName of
             Inl err' \<Rightarrow> (results, err)
           | Inr r \<Rightarrow> expandArray_each L result metricName rest (results @ r, err))
        else
          (case convertType L (Value (Some val)) (DesiredType result) (RootFieldName result) of
             Inl err' \<Rightarrow> (results, err)
           | Inr v \<Rightarrow>
               expandArray_each L result metricName rest
                 (results @
                    [\<lparr>RootFieldName = RootFieldName result, DesiredType = [],
                      Metric = copyFields (Metric result) (AddField (RootFieldName result) v m),
                      Result = Some val\<rparr>],
                  err)))"
  by pat_completeness auto
termination
proof -
  have children: "size_list (\<lambda>p. size (snd p)) (ForEach r) < rsize r" if "IsArray r" for r
    using that
    by (auto simp: IsArray_def rsize_def size_list_conv_sum_list comp_def
             split: option.splits json.splits)
  have some: "rsize (Some v) = size v" for v
    by (simp add: rsize_def)
  show ?thesis
    by (relation "measure (\<lambda>x. case x of
            Inl (L, result, metricName) \<Rightarrow> rsize (Result result)
          | Inr (L, result, metricName, kvs, st) \<Rightarrow> size_list (\<lambda>p. size (snd p)) kvs)")
       (auto simp: children some)
qed

declare expandArray.simps [simp del]

section \<open>combineObject\<close>

text \<open>
  \<^verbatim>\<open>combineObject\<close> writes to one metric, the one its row points to, and hands the same
  pointer to the row of a nested object; every other metric it meets is a fresh copy
  made by \<^verbatim>\<open>expandArray\<close>. The model passes the state of that one metric along:
  \<open>combineObject_each\<close> is the closure run over the children that are left, on the
  pair of \<^verbatim>\<open>metrics\<close> and the state of the shared metric, and \<open>combineObject\<close>
  returns the Go results together with the final state of the shared metric. The row
  appended last holds the shared metric, so it shows that final state.

  The closure's three \<^verbatim>\<open>return false\<close> stop the iteration and nothing else: the
  function has no error variable, and its only \<^verbatim>\<open>return\<close> is \<^verbatim>\<open>metrics, nil\<close>.
\<close>

text \<open>
  The weight of a child in the termination measure. A scalar weighs 1: \<^verbatim>\<open>ForEach\<close>
  offers a scalar result to the closure as its own only child, and the closure does
  not recurse on it.
\<close>

definition eweight :: "json \<Rightarrow> nat" where
  "eweight v = (if IsObject (Some v) \<or> IsArray (Some v) then 3 * size v + 3 else 1)"

function combineObject ::
    "golib \<Rightarrow> MetricNode \<Rightarrow> (string \<rightharpoonup> string) \<Rightarrow> (string \<rightharpoonup> string) \<Rightarrow>
       (error + MetricNode list) \<times> metric"
  and combineObject_each ::
    "golib \<Rightarrow> MetricNode \<Rightarrow> (string \<rightharpoonup> string) \<Rightarrow> (string \<rightharpoonup> string) \<Rightarrow>
       (string \<times> json) list \<Rightarrow> MetricNode list \<times> metric \<Rightarrow> MetricNode list \<times> metric"
where
  "combineObject L result nameMap typeMap =
     (case combineObject_each L result nameMap typeMap (ForEach (Result result))
             ([], Metric result) of
        (metrics, shared) \<Rightarrow> (Inr (metrics @ [result\<lparr>Metric := shared\<rparr>]), shared))"
| "combineObject_each L result nameMap typeMap [] st = st"
| "combineObject_each L result nameMap typeMap ((key, val) # rest) (metrics, shared) =
     (let fieldName =
            (if key \<noteq> [] then
               removeSpaces (case nameMap key of Some newName \<Rightarrow> newName | None \<Rightarrow> key)
             else RootFieldName result)
      in
      if IsArray (Some val) then
        (case expandArray L
                \<lparr>RootFieldName = key, DesiredType = [], Metric = shared, Result = Some val\<rparr>
                (name shared) of
           Inl err \<Rightarrow> (metrics, shared)
         | Inr m \<Rightarrow> combineObject_each L result nameMap typeMap rest (metrics @ m, shared))
      else if IsObject (Some val) then
        (case combineObject L
                \<lparr>RootFieldName = key, DesiredType = [], Metric = shared, Result = Some val\<rparr>
                nameMap typeMap of
           (Inl err, shared') \<Rightarrow> (metrics, shared')
         | (Inr ignored, shared') \<Rightarrow>
             combineObject_each L result nameMap typeMap rest (metrics, shared'))
      else
        (case typeMap key of
           Some desiredType \<Rightarrow>
             (case convertType L (Value (Some val)) desiredType key of
                Inl err \<Rightarrow> (metrics, shared)
              | Inr fieldValue \<Rightarrow>
                  combineObject_each L result nameMap typeMap rest
                    (metrics, AddField fieldName fieldValue shared))
         | None \<Rightarrow>
             combineObject_each L result nameMap typeMap rest
               (metrics, AddField fieldName (Value (Some val)) shared)))"
  by pat_completeness auto
termination
proof -
  have some: "rsize (Some v) = size v" for v
    by (simp add: rsize_def)
  have le: "eweight v \<le> 3 * size v + 3" for v
    by (simp add: eweight_def)
  have pos: "0 < eweight v" for v
    by (simp add: eweight_def)
  have object: "eweight v = 3 * size v + 3" if "IsObject (Some v)" for v
    using that by (simp add: eweight_def)
  have pairs: "sum_list (map (\<lambda>p. eweight (snd p)) kvs)
                 \<le> 3 * size_list (size_prod (\<lambda>_. 0) size) kvs"
    for kvs :: "(string \<times> json) list"
  proof (induction kvs)
    case Nil
    show ?case by simp
  next
    case (Cons p kvs)
    obtain k v where p: "p = (k, v)" by (cases p)
    from Cons le [of v] show ?case by (simp add: p)
  qed
  have elems: "sum_list (map (\<lambda>p. eweight (snd p)) (map (\<lambda>v. (k, v)) vs))
                 \<le> 3 * size_list size vs"
    for k :: string and vs
  proof (induction vs)
    case Nil
    show ?case by simp
  next
    case (Cons v vs)
    from Cons le [of v] show ?case by simp
  qed
  have weight: "sum_list (map (\<lambda>p. eweight (snd p)) (ForEach r)) < Suc (Suc (3 * rsize r))"
    for r
  proof (cases r)
    case None
    then show ?thesis by (simp add: rsize_def)
  next
    case (Some v)
    show ?thesis
    proof (cases v)
      case (JArray vs)
      with Some elems [of "[]" vs] show ?thesis by (simp add: rsize_def)
    next
      case (JObject kvs)
      with Some pairs [of kvs] show ?thesis by (simp add: rsize_def)
    qed (simp_all add: Some rsize_def eweight_def IsObject_def IsArray_def)
  qed
  show ?thesis
    by (relation "measure (\<lambda>x. case x of
            Inl (L, result, nameMap, typeMap) \<Rightarrow> 3 * rsize (Result result) + 2
          | Inr (L, result, nameMap, typeMap, kvs, st) \<Rightarrow>
              sum_list (map (\<lambda>p. eweight (snd p)) kvs))")
       (auto simp: weight pos object some)
qed

section \<open>processBasicFields\<close>

text \<open>
  The first loop: one group of metrics per configured field, in configuration order.
  Each field gets a fresh metric, so no metric belongs to two groups.
\<close>

fun processBasicFields_each ::
    "golib \<Rightarrow> string \<Rightarrow> document \<Rightarrow> BasicField list \<Rightarrow> metric list list \<Rightarrow>
       error + metric list list"
where
  "processBasicFields_each L metricName input [] metricFields = Inr metricFields"
| "processBasicFields_each L metricName input (field # rest) metricFields =
     (let result = GetBytes input (Query field) in
      if IsObject result then Inl UseObjectField
      else
        let fieldName = (if Name field = [] then lastSegment (Query field) else Name field);
            mNode = \<lparr>RootFieldName = fieldName, DesiredType = Type field,
                     Metric = metric_New metricName, Result = result\<rparr>
        in case expandArray L mNode metricName of
             Inl err \<Rightarrow> Inl err
           | Inr nodes \<Rightarrow>
               processBasicFields_each L metricName input rest
                 (metricFields @ [map Metric nodes]))"

text \<open>
  The combining loop \<^verbatim>\<open>for i := 1; i < len(metricFields); i++\<close>: \<open>combineFrom prev gs\<close>
  walks the groups from index \<open>i\<close> on, \<open>prev\<close> being group \<open>i - 1\<close> as the previous
  round left it. Every metric of the previous group has its fields added to every
  metric of the current one.
\<close>

fun combineFrom :: "metric list \<Rightarrow> metric list list \<Rightarrow> metric list list" where
  "combineFrom prev [] = []"
| "combineFrom prev (cur # rest) =
     (let cur' = fold (\<lambda>p cs. map (copyFields p) cs) prev cur
      in cur' # combineFrom cur' rest)"

definition combineMetrics :: "metric list list \<Rightarrow> metric list list" where
  "combineMetrics metricFields =
     (if length metricFields > 1 then
        (case metricFields of
           first # rest \<Rightarrow> first # combineFrom first rest
         | [] \<Rightarrow> [])
      else metricFields)"

text \<open>
  \<^verbatim>\<open>sort.Slice\<close> orders the groups by their length. It promises no order among groups
  of equal length; \<open>sort_key length\<close> is the insertion sort that Go runs on a short
  slice and keeps such groups in configuration order. Nothing below depends on that
  choice: the theorems sort one group, or two groups of different lengths.
\<close>

definition processBasicFields ::
    "golib \<Rightarrow> string \<Rightarrow> BasicField list \<Rightarrow> document \<Rightarrow> error + metric list"
where
  "processBasicFields L metricName basicFields input =
     (case processBasicFields_each L metricName input basicFields [] of
        Inl err \<Rightarrow> Inl err
      | Inr metricFields \<Rightarrow>
          let combined = combineMetrics (sort_key length metricFields) in
          if length combined > 0 \<and> length (combined ! (length combined - 1)) > 0
          then Inr (combined ! (length combined - 1))
          else Inr [])"

section \<open>processObjectFields\<close>

fun processObjectFields_each ::
    "golib \<Rightarrow> string \<Rightarrow> document \<Rightarrow> ObjectField list \<Rightarrow> metric list \<Rightarrow> error + metric list"
where
  "processObjectFields_each L metricName input [] t = Inr t"
| "processObjectFields_each L metricName input (field # rest) t =
     (let result = GetBytes input (OQuery field);
          fieldName = lastSegment (OQuery field);
          rootObject = \<lparr>RootFieldName = fieldName, DesiredType = [],
                        Metric = metric_New metricName, Result = result\<rparr>
      in case fst (combineObject L rootObject (NameMap field) (TypeMap field)) of
           Inl err \<Rightarrow> Inl err
         | Inr metrics \<Rightarrow>
             processObjectFields_each L metricName input rest (t @ map Metric metrics))"

definition processObjectFields ::
    "golib \<Rightarrow> string \<Rightarrow> ObjectField list \<Rightarrow> document \<Rightarrow> error + metric list"
where
  "processObjectFields L metricName objectFields input =
     processObjectFields_each L metricName input objectFields []"

section \<open>Notions the statements use\<close>

text \<open>
  The scalars below an array, in document order: an array contributes the leaves of
  its elements, any other value is a leaf itself.
\<close>

fun leaves :: "json \<Rightarrow> json list" where
  "leaves (JArray vs) = concat (map leaves vs)"
| "leaves v = [v]"

text \<open>
  \<open>uniform [n1, ..., nD] v\<close>: \<open>v\<close> is an array nested to depth \<open>D\<close> whose arrays at
  level \<open>i\<close> all have \<open>ni\<close> elements, over leaves that are neither arrays nor objects.
\<close>

fun uniform :: "nat list \<Rightarrow> json \<Rightarrow> bool" where
  "uniform [] v = (\<not> IsArray (Some v) \<and> \<not> IsObject (Some v))"
| "uniform (n # ns) v =
     (case v of JArray vs \<Rightarrow> length vs = n \<and> list_all (uniform ns) vs | _ \<Rightarrow> False)"

text \<open>
  The row for the leaf \<open>v\<close>, converted to \<open>x\<close>, under the field name \<open>f\<close>: the
  accumulated fields \<open>F\<close> and then the one field \<open>f = x\<close>.
\<close>

definition rowOf ::
    "string \<Rightarrow> string \<Rightarrow> (string \<times> gvalue) list \<Rightarrow> json \<Rightarrow> gvalue \<Rightarrow> MetricNode" where
  "rowOf mn f F v x =
     \<lparr>RootFieldName = f, DesiredType = [],
      Metric = \<lparr>name = mn, FieldList = F @ [(f, x)]\<rparr>, Result = Some v\<rparr>"

text \<open>A JSON string, boolean or number: the values that convert with no desired type.\<close>

definition plain :: "json \<Rightarrow> bool" where
  "plain v = (case v of JString s \<Rightarrow> True | JBool b \<Rightarrow> True | JNumber x \<Rightarrow> True | _ \<Rightarrow> False)"

text \<open>The field name \<^verbatim>\<open>processBasicFields\<close> works out for a rule.\<close>

definition fieldNameOf :: "BasicField \<Rightarrow> string" where
  "fieldNameOf field = (if Name field = [] then lastSegment (Query field) else Name field)"

text \<open>\<open>setAll fs g\<close> is the field list that copying the fields \<open>fs\<close> onto \<open>g\<close> leaves.\<close>

definition setAll :: "(string \<times> gvalue) list \<Rightarrow> (string \<times> gvalue) list \<Rightarrow> (string \<times> gvalue) list" where
  "setAll fs g = fold (\<lambda>f g'. setField (fst f) (snd f) g') fs g"

text \<open>
  \<open>leafRow mn f F r\<close>: the row \<open>r\<close> is one that the expansion of an array appends for
  a scalar element, under the field name \<open>f\<close> and from the accumulated fields
  \<open>F\<close>. Its metric holds \<open>F\<close> itself when \<open>f\<close> is a key of \<open>F\<close>, and \<open>F\<close> with
  one more field, under \<open>f\<close>, otherwise.
\<close>

definition leafRow :: "string \<Rightarrow> string \<Rightarrow> (string \<times> gvalue) list \<Rightarrow> MetricNode \<Rightarrow> bool" where
  "leafRow mn f F r =
     (RootFieldName r = f \<and> DesiredType r = [] \<and> name (Metric r) = mn \<and>
      (if f \<in> set (map fst F) then FieldList (Metric r) = F
       else FieldList (Metric r) = F @ [(f, snd (last (FieldList (Metric r))))]))"

text \<open>
  An instance of the library record, for evaluating the parser on concrete inputs.
  Its float parser rejects every string and its printer prints nothing; the closed
  theorems below that name it convert no string to a float, print no float and cast
  no float beyond the 64-bit range.
\<close>

definition lib0 :: golib where
  "lib0 = \<lparr>ParseFloat = (\<lambda>s. None), Sprint = (\<lambda>x. []), Int64OutOfRange = (\<lambda>x. 0)\<rparr>"

section \<open>Library functions\<close>

lemma Split_not_Nil: "Split s sep \<noteq> []"
  by (induction s) (auto split: list.splits)

section \<open>Field lists\<close>

lemma map_of_setField: "map_of (setField k v fs) = (map_of fs)(k \<mapsto> v)"
  by (induction fs) (auto simp: fun_eq_iff)

lemma keys_setField:
  "map fst (setField k v fs) = (if k \<in> set (map fst fs) then map fst fs else map fst fs @ [k])"
  by (induction fs) auto

lemma setField_new: "k \<notin> set (map fst fs) \<Longrightarrow> setField k v fs = fs @ [(k, v)]"
  by (induction fs) auto

lemma alist_eqI:
  "map fst xs = map fst ys \<Longrightarrow> map_of xs = map_of ys \<Longrightarrow> distinct (map fst xs) \<Longrightarrow> xs = ys"
proof (induction xs arbitrary: ys)
  case Nil
  then show ?case by simp
next
  case (Cons x xs)
  then obtain y ys' where ys: "ys = y # ys'" by (cases ys) auto
  from Cons.prems ys have k: "fst x = fst y" and ks: "map fst xs = map fst ys'" by auto
  from fun_cong [OF Cons.prems(2), of "fst x"] ys k have v: "snd x = snd y"
    by (cases x; cases y) simp
  have "map_of xs = map_of ys'"
  proof
    fix a
    show "map_of xs a = map_of ys' a"
    proof (cases "a = fst x")
      case True
      with Cons.prems(3) have "a \<notin> set (map fst xs)" by simp
      then have "map_of xs a = None" by (simp add: map_of_eq_None_iff)
      moreover from \<open>a \<notin> set (map fst xs)\<close> ks have "map_of ys' a = None"
        by (simp add: map_of_eq_None_iff)
      ultimately show ?thesis by simp
    next
      case False
      from fun_cong [OF Cons.prems(2), of a] ys False k show ?thesis
        by (cases x; cases y) simp
    qed
  qed
  with Cons.IH [of ys'] ks Cons.prems(3) have "xs = ys'" by simp
  with k v ys show ?case by (cases x; cases y) auto
qed

lemma FieldList_copyFields: "FieldList (copyFields p c) = setAll (FieldList p) (FieldList c)"
proof -
  have "\<And>c. FieldList (fold (\<lambda>f c'. AddField (fst f) (snd f) c') fs c)
      = fold (\<lambda>f g'. setField (fst f) (snd f) g') fs (FieldList c)" for fs
    by (induction fs) (auto simp: AddField_def)
  then show ?thesis by (simp add: copyFields_def setAll_def)
qed

lemma name_copyFields: "name (copyFields p c) = name c"
proof -
  have "\<And>c. name (fold (\<lambda>f c'. AddField (fst f) (snd f) c') fs c) = name c" for fs
    by (induction fs) (auto simp: AddField_def)
  then show ?thesis by (simp add: copyFields_def)
qed

lemma map_of_setAll: "map_of (setAll fs g) = map_of g ++ map_of (rev fs)"
  unfolding setAll_def
proof (induction fs arbitrary: g)
  case Nil
  show ?case by simp
next
  case (Cons f fs)
  show ?case
    by (cases f) (simp add: Cons.IH map_of_setField map_add_def fun_eq_iff split: option.splits)
qed

lemma keys_setAll_subset:
  "set (map fst fs) \<subseteq> set (map fst g) \<Longrightarrow> map fst (setAll fs g) = map fst g"
  unfolding setAll_def
proof (induction fs arbitrary: g)
  case Nil
  show ?case by simp
next
  case (Cons f fs)
  from Cons.prems have "fst f \<in> set (map fst g)" by simp
  then have same: "map fst (setField (fst f) (snd f) g) = map fst g"
    by (simp add: keys_setField)
  with Cons.prems have "set (map fst fs) \<subseteq> set (map fst (setField (fst f) (snd f) g))"
    by simp
  from Cons.IH [OF this] same show ?case by simp
qed

lemma setAll_empty: "distinct (map fst fs) \<Longrightarrow> setAll fs [] = fs"
proof -
  have "distinct (map fst (g @ fs)) \<Longrightarrow> setAll fs g = g @ fs" for g
    unfolding setAll_def
  proof (induction fs arbitrary: g)
    case Nil
    show ?case by simp
  next
    case (Cons f fs)
    from Cons.prems have "fst f \<notin> set (map fst g)" by auto
    then have "setField (fst f) (snd f) g = g @ [f]" by (simp add: setField_new)
    moreover from Cons.prems have "distinct (map fst ((g @ [f]) @ fs))" by simp
    ultimately show ?case using Cons.IH [of "g @ [f]"] by simp
  qed
  from this [of "[]"] show "distinct (map fst fs) \<Longrightarrow> setAll fs [] = fs" by simp
qed

lemma map_of_rev_distinct: "distinct (map fst fs) \<Longrightarrow> map_of (rev fs) = map_of fs"
  by (rule map_of_inject_set [THEN iffD2]) (simp_all add: rev_map [symmetric])

text \<open>The fields of the metric an array element's row gets.\<close>

lemma leaf_fields:
  assumes "distinct (map fst F)"
  shows "setAll F (setField f x (setAll F [])) =
           (if f \<in> set (map fst F) then F else F @ [(f, x)])"
proof -
  let ?g = "setField f x F"
  have copy: "setAll F [] = F" using assms by (rule setAll_empty)
  have keys: "map fst (setAll F ?g) = map fst ?g"
    by (rule keys_setAll_subset) (auto simp: keys_setField)
  have maps: "map_of (setAll F ?g) = (map_of F)(f \<mapsto> x) ++ map_of F"
    by (simp add: map_of_setAll map_of_setField map_of_rev_distinct assms)
  show ?thesis
  proof (cases "f \<in> set (map fst F)")
    case True
    then have "f \<in> dom (map_of F)" by (simp add: dom_map_of_conv_image_fst)
    then have "(map_of F)(f \<mapsto> x) ++ map_of F = map_of F"
      by (auto simp: map_add_def fun_eq_iff split: option.splits)
    with maps have m: "map_of (setAll F ?g) = map_of F" by simp
    from keys True have k: "map fst (setAll F ?g) = map fst F" by (simp add: keys_setField)
    from k assms have "distinct (map fst (setAll F ?g))" by simp
    with k m have "setAll F ?g = F" by (rule alist_eqI)
    with True copy show ?thesis by simp
  next
    case False
    then have g: "?g = F @ [(f, x)]" by (simp add: setField_new)
    from False have "map_of F f = None" by (simp add: map_of_eq_None_iff)
    then have "(map_of F)(f \<mapsto> x) ++ map_of F = map_of (F @ [(f, x)])"
      by (auto simp: map_add_def fun_eq_iff split: option.splits)
    with maps have m: "map_of (setAll F ?g) = map_of (F @ [(f, x)])" by simp
    from keys g have k: "map fst (setAll F ?g) = map fst (F @ [(f, x)])" by simp
    from False assms k have "distinct (map fst (setAll F ?g))" by simp
    with k m have "setAll F ?g = F @ [(f, x)]" by (rule alist_eqI)
    with False copy show ?thesis by simp
  qed
qed

section \<open>The rows of expandArray\<close>

lemma FieldList_AddField [simp]: "FieldList (AddField k v m) = setField k v (FieldList m)"
  by (simp add: AddField_def)

lemma name_AddField [simp]: "name (AddField k v m) = name m"
  by (simp add: AddField_def)

lemma metric_New_sel [simp]: "name (metric_New mn) = mn" "FieldList (metric_New mn) = []"
  by (simp_all add: metric_New_def)

lemma expandArray_rows_inv:
  assumes dF: "distinct (map fst F)"
  shows "FieldList (Metric node) = F \<longrightarrow> RootFieldName node = f \<longrightarrow> IsArray (Result node) \<longrightarrow>
           (\<forall>rows. expandArray L node mn = Inr rows \<longrightarrow> list_all (leafRow mn f F) rows)"
    and "FieldList (Metric node) = F \<longrightarrow> RootFieldName node = f \<longrightarrow>
           list_all (leafRow mn f F) (fst st) \<longrightarrow>
           list_all (leafRow mn f F) (fst (expandArray_each L node mn kvs st))"
proof (induction L node mn and L node mn kvs st rule: expandArray_expandArray_each.induct)
  case (1 L result metricName)
  show ?case
  proof (intro impI allI)
    fix rows
    assume F: "FieldList (Metric result) = F" and f: "RootFieldName result = f"
      and arr: "IsArray (Result result)"
      and run: "expandArray L result metricName = Inr rows"
    from arr have nobj: "\<not> IsObject (Result result)"
      by (auto simp: IsArray_def IsObject_def split: option.splits json.splits)
    from "1.IH" [OF nobj arr] F f
    have "list_all (leafRow metricName f F)
            (fst (expandArray_each L result metricName (ForEach (Result result)) ([], None)))"
      by simp
    moreover from run nobj arr
    have "rows = fst (expandArray_each L result metricName (ForEach (Result result)) ([], None))"
      by (subst (asm) expandArray.simps) (auto split: prod.splits option.splits)
    ultimately show "list_all (leafRow metricName f F) rows" by simp
  qed
next
  case (2 L result metricName st)
  show ?case by simp
next
  case (3 L result metricName key val rest results err)
  show ?case
  proof (intro impI)
    assume F: "FieldList (Metric result) = F" and f: "RootFieldName result = f"
      and acc: "list_all (leafRow metricName f F) (fst (results, err))"
    let ?m = "copyFields (Metric result) (metric_New metricName)"
    have m: "FieldList ?m = F" "name ?m = metricName"
      using dF by (simp_all add: FieldList_copyFields name_copyFields F setAll_empty)
    show "list_all (leafRow metricName f F)
            (fst (expandArray_each L result metricName ((key, val) # rest) (results, err)))"
    proof (cases "IsObject (Some val)")
      case True
      with acc show ?thesis by simp
    next
      case nobj: False
      show ?thesis
      proof (cases "IsArray (Some val)")
        case arr: True
        let ?n = "\<lparr>RootFieldName = RootFieldName result, DesiredType = [],
                   Metric = ?m, Result = Some val\<rparr>"
        show ?thesis
        proof (cases "expandArray L ?n metricName")
          case (Inl e)
          with nobj arr acc show ?thesis by simp
        next
          case (Inr r)
          from "3.IH"(1) [OF nobj refl arr] m f arr Inr
          have "list_all (leafRow metricName f F) r" by simp
          with acc have "list_all (leafRow metricName f F) (fst (results @ r, err))" by simp
          with "3.IH"(2) [OF nobj refl arr Inr] F f
          have "list_all (leafRow metricName f F)
                  (fst (expandArray_each L result metricName rest (results @ r, err)))"
            by simp
          with nobj arr Inr show ?thesis by simp
        qed
      next
        case narr: False
        show ?thesis
        proof (cases "convertType L (Value (Some val)) (DesiredType result) (RootFieldName result)")
          case (Inl e)
          with nobj narr acc show ?thesis by simp
        next
          case (Inr v)
          let ?row = "\<lparr>RootFieldName = RootFieldName result, DesiredType = [],
                        Metric = copyFields (Metric result) (AddField (RootFieldName result) v ?m),
                        Result = Some val\<rparr>"
          have fl: "FieldList (Metric ?row) = (if f \<in> set (map fst F) then F else F @ [(f, v)])"
            using leaf_fields [OF dF, of f v] dF
            by (simp add: FieldList_copyFields F f setAll_empty)
          have "leafRow metricName f F ?row"
            unfolding leafRow_def using fl by (simp add: f name_copyFields)
          with acc have "list_all (leafRow metricName f F) (fst (results @ [?row], err))" by simp
          with "3.IH"(3) [OF nobj refl narr Inr] F f
          have "list_all (leafRow metricName f F)
                  (fst (expandArray_each L result metricName rest (results @ [?row], err)))"
            by simp
          with nobj narr Inr show ?thesis by simp
        qed
      qed
    qed
  qed
qed

section \<open>Properties of convertType\<close>

lemmas shape_defs = IsObject_def IsArray_def Exists_def

lemmas metric_defs = metric_New_def AddField_def copyFields_def

lemma float_trunc_example1: "float_trunc (7 / 2) = 3"
  by code_simp

lemma float_trunc_example2: "float_trunc (- (7 / 2)) = - 3"
  by code_simp

lemma float_trunc_abs: "\<bar>of_int (float_trunc x)\<bar> \<le> \<bar>x\<bar>"
proof (cases "0 \<le> x")
  case True
  then have "0 \<le> \<lfloor>x\<rfloor>" by simp
  moreover have "of_int \<lfloor>x\<rfloor> \<le> x" by simp
  ultimately show ?thesis using True by (simp add: float_trunc_def)
next
  case False
  then have "\<lceil>x\<rceil> \<le> 0" by (simp add: ceiling_le_iff)
  moreover have "x \<le> of_int \<lceil>x\<rceil>" by simp
  ultimately show ?thesis using False by (simp add: float_trunc_def)
qed

lemma float_trunc_near: "\<bar>x - of_int (float_trunc x)\<bar> < 1"
proof (cases "0 \<le> x")
  case True
  have "of_int \<lfloor>x\<rfloor> \<le> x" "x < of_int \<lfloor>x\<rfloor> + 1" by linarith+
  then show ?thesis using True by (simp add: float_trunc_def)
next
  case False
  have "x \<le> of_int \<lceil>x\<rceil>" "of_int \<lceil>x\<rceil> < x + 1" by linarith+
  then show ?thesis using False by (simp add: float_trunc_def)
qed

text \<open>
  C4, as the code has it: with an empty desired type, \<open>convertType\<close> returns a string,
  a boolean and a float unchanged; for a value of any other kind (\<^verbatim>\<open>nil\<close>, which is
  what JSON \<^verbatim>\<open>null\<close> yields, an integer, a slice or a map) it returns the
  "unknown format" error of the \<^verbatim>\<open>default\<close> branch and no value.
\<close>

theorem convertType_empty_type:
  "convertType L (VString s) [] n = Inr (VString s) \<and>
   convertType L (VBool b) [] n = Inr (VBool b) \<and>
   convertType L (VFloat x) [] n = Inr (VFloat x) \<and>
   convertType L VNil [] n = Inl (UnknownFormat n) \<and>
   convertType L (VInt i) [] n = Inl (UnknownFormat n) \<and>
   convertType L (VJSON j) [] n = Inl (UnknownFormat n)"
  by (simp add: convertType_def)

text \<open>
  C4 as stated fails: JSON \<^verbatim>\<open>null\<close> with an empty desired type does not come back
  unchanged.
\<close>

theorem convertType_empty_type_null:
  "convertType lib0 (Value (Some JNull)) [] ''f'' \<noteq> Inr (Value (Some JNull))"
  by (simp add: convertType_def)

text \<open>
  C7, as the code has it: \<open>"42"\<close> to int is the integer 42; \<open>true\<close> to int is 1;
  \<open>1.0\<close> to bool is true, and \<open>3.0\<close> to bool is a conversion error, as is \<open>3.5\<close>
  to bool; \<open>"x"\<close> to int is a conversion error; a float to int is cut towards zero
  (3.5 gives 3 and -3.5 gives -3), for every float whose integer part fits 64 bits.
\<close>

theorem convertType_examples:
  "convertType L (VString ''42'') ''int'' n = Inr (VInt 42) \<and>
   convertType L (VBool True) ''int'' n = Inr (VInt 1) \<and>
   convertType L (VFloat 1) ''bool'' n = Inr (VBool True) \<and>
   convertType L (VFloat 3) ''bool'' n = Inl (UnableToConvert n ''bool'') \<and>
   convertType L (VFloat (7 / 2)) ''bool'' n = Inl (UnableToConvert n ''bool'') \<and>
   convertType L (VString ''x'') ''int'' n = Inl (UnableToConvert n ''int'') \<and>
   convertType L (VFloat (7 / 2)) ''int'' n = Inr (VInt 3) \<and>
   convertType L (VFloat (- 7 / 2)) ''int'' n = Inr (VInt (- 3)) \<and>
   (- (2 ^ 63) \<le> float_trunc x \<and> float_trunc x < 2 ^ 63 \<longrightarrow>
      convertType L (VFloat x) ''int'' n = Inr (VInt (float_trunc x)) \<and>
      \<bar>of_int (float_trunc x)\<bar> \<le> \<bar>x\<bar> \<and> \<bar>x - of_int (float_trunc x)\<bar> < 1)"
proof (intro conjI impI)
  show "convertType L (VString ''42'') ''int'' n = Inr (VInt 42)"
    by (simp add: convertType_def Atoi_def digit_of_def)
  show "convertType L (VString ''x'') ''int'' n = Inl (UnableToConvert n ''int'')"
    by (simp add: convertType_def Atoi_def digit_of_def)
  show "convertType L (VFloat (7 / 2)) ''int'' n = Inr (VInt 3)"
    by (simp add: convertType_def int64_of_float_def float_trunc_example1)
  show "convertType L (VFloat (- 7 / 2)) ''int'' n = Inr (VInt (- 3))"
    by (simp add: convertType_def int64_of_float_def float_trunc_example2)
  show "\<bar>of_int (float_trunc x)\<bar> \<le> \<bar>x\<bar>"
    by (rule float_trunc_abs)
  show "\<bar>x - of_int (float_trunc x)\<bar> < 1"
    by (rule float_trunc_near)
qed (simp_all add: convertType_def int64_of_float_def)

theorem convertType_examples_witness:
  "(- (2 ^ 63) \<le> float_trunc (7 / 2) \<and> float_trunc (7 / 2) < 2 ^ 63) \<and>
   convertType lib0 (VFloat (7 / 2)) ''int'' ''f'' = Inr (VInt (float_trunc (7 / 2))) \<and>
   float_trunc (7 / 2) = 3"
  using convertType_examples [of lib0 "''f''" "7 / 2"]
  by (simp add: float_trunc_example1)

text \<open>C7 as stated fails: \<open>3.0\<close> to bool is not true.\<close>

theorem convertType_three_to_bool:
  "convertType lib0 (VFloat 3) ''bool'' ''f'' \<noteq> Inr (VBool True)"
  by (simp add: convertType_def)

section \<open>The parser on concrete documents\<close>

text \<open>
  C6: flattening \<^verbatim>\<open>{"a":1,"items":[10,20]}\<close> with empty name and type maps returns
  three rows: the two rows of the array, with the fields \<open>a = 1, items = 10\<close> and
  \<open>a = 1, items = 20\<close>, and then the row of the object itself, with the field
  \<open>a = 1\<close> alone. The object-field processor emits the three metrics, in that order.
\<close>

theorem combineObject_array_child:
  "fst (combineObject L
      \<lparr>RootFieldName = rf, DesiredType = dt, Metric = metric_New mn,
       Result = Some (JObject [(''a'', JNumber 1), (''items'', JArray [JNumber 10, JNumber 20])])\<rparr>
      Map.empty Map.empty) =
   Inr [\<lparr>RootFieldName = ''items'', DesiredType = [],
         Metric = \<lparr>name = mn, FieldList = [(''a'', VFloat 1), (''items'', VFloat 10)]\<rparr>,
         Result = Some (JNumber 10)\<rparr>,
        \<lparr>RootFieldName = ''items'', DesiredType = [],
         Metric = \<lparr>name = mn, FieldList = [(''a'', VFloat 1), (''items'', VFloat 20)]\<rparr>,
         Result = Some (JNumber 20)\<rparr>,
        \<lparr>RootFieldName = rf, DesiredType = dt,
         Metric = \<lparr>name = mn, FieldList = [(''a'', VFloat 1)]\<rparr>,
         Result = Some (JObject [(''a'', JNumber 1), (''items'', JArray [JNumber 10, JNumber 20])])\<rparr>] \<and>
   processObjectFields L mn [\<lparr>OQuery = q, NameMap = Map.empty, TypeMap = Map.empty\<rparr>]
      (\<lambda>query. Some (JObject [(''a'', JNumber 1), (''items'', JArray [JNumber 10, JNumber 20])])) =
   Inr [\<lparr>name = mn, FieldList = [(''a'', VFloat 1), (''items'', VFloat 10)]\<rparr>,
        \<lparr>name = mn, FieldList = [(''a'', VFloat 1), (''items'', VFloat 20)]\<rparr>,
        \<lparr>name = mn, FieldList = [(''a'', VFloat 1)]\<rparr>]"
  by (simp add: expandArray.simps shape_defs metric_defs convertType_def removeSpaces_def
        processObjectFields_def GetBytes_def Let_def)

text \<open>
  C1, the code at three arrays. In \<^verbatim>\<open>[1, 2.5]\<close> with the desired type bool the second
  element does not convert: the result is the row of the first element and no error.
  In \<^verbatim>\<open>[1, [{}], 2]\<close> the expansion of the nested array fails: again the result is
  the row of the first element and no error. In \<^verbatim>\<open>[1, {}, 2]\<close> the object element
  is reported: the result is the error and no row.
\<close>

theorem expandArray_partial_rows:
  "expandArray L
     \<lparr>RootFieldName = f, DesiredType = ''bool'', Metric = metric_New mn,
      Result = Some (JArray [JNumber 1, JNumber (5 / 2)])\<rparr> mn =
   Inr [\<lparr>RootFieldName = f, DesiredType = [],
         Metric = \<lparr>name = mn, FieldList = [(f, VBool True)]\<rparr>,
         Result = Some (JNumber 1)\<rparr>] \<and>
   expandArray L
     \<lparr>RootFieldName = f, DesiredType = [], Metric = metric_New mn,
      Result = Some (JArray [JNumber 1, JArray [JObject []], JNumber 2])\<rparr> mn =
   Inr [\<lparr>RootFieldName = f, DesiredType = [],
         Metric = \<lparr>name = mn, FieldList = [(f, VFloat 1)]\<rparr>,
         Result = Some (JNumber 1)\<rparr>] \<and>
   expandArray L
     \<lparr>RootFieldName = f, DesiredType = [], Metric = metric_New mn,
      Result = Some (JArray [JNumber 1, JObject [], JNumber 2])\<rparr> mn =
   Inl EncounteredObject"
  by (simp add: expandArray.simps shape_defs metric_defs convertType_def)

text \<open>
  C2, the code at two objects. In \<^verbatim>\<open>{"a":"x","b":2}\<close> with the type map
  \<open>a \<mapsto> int\<close> the value of \<open>a\<close> does not convert; in \<^verbatim>\<open>{"items":[{}]}\<close> the
  expansion of the array child fails. Both times \<open>combineObject\<close> returns no error
  but the row of the object, with the fields written before the failure (here none),
  and the object-field processor emits that row's metric.
\<close>

theorem combineObject_swallows_errors:
  "fst (combineObject L
      \<lparr>RootFieldName = rf, DesiredType = dt, Metric = metric_New mn,
       Result = Some (JObject [(''a'', JString ''x''), (''b'', JNumber 2)])\<rparr>
      Map.empty [''a'' \<mapsto> ''int'']) =
   Inr [\<lparr>RootFieldName = rf, DesiredType = dt,
         Metric = \<lparr>name = mn, FieldList = []\<rparr>,
         Result = Some (JObject [(''a'', JString ''x''), (''b'', JNumber 2)])\<rparr>] \<and>
   fst (combineObject L
      \<lparr>RootFieldName = rf, DesiredType = dt, Metric = metric_New mn,
       Result = Some (JObject [(''items'', JArray [JObject []])])\<rparr>
      Map.empty Map.empty) =
   Inr [\<lparr>RootFieldName = rf, DesiredType = dt,
         Metric = \<lparr>name = mn, FieldList = []\<rparr>,
         Result = Some (JObject [(''items'', JArray [JObject []])])\<rparr>] \<and>
   processObjectFields L mn
      [\<lparr>OQuery = q, NameMap = Map.empty, TypeMap = [''a'' \<mapsto> ''int'']\<rparr>]
      (\<lambda>query. Some (JObject [(''a'', JString ''x''), (''b'', JNumber 2)])) =
   Inr [\<lparr>name = mn, FieldList = []\<rparr>]"
  by (simp add: expandArray.simps shape_defs metric_defs convertType_def removeSpaces_def
        Atoi_def digit_of_def processObjectFields_def GetBytes_def Let_def)

section \<open>Array expansion and the accumulated fields\<close>

text \<open>
  C10: in the expansion of an array, a row whose accumulated fields have distinct keys,
  one of them the row's field name, emits only metrics whose fields are the accumulated
  fields as they were: the second copy of the accumulated fields writes the old value
  back over the converted element. The second part is the step for one scalar element
  that converts to \<open>v\<close>: the row appended holds the accumulated fields, and \<open>v\<close>
  nowhere.
\<close>

theorem expandArray_leaf_overwritten:
  assumes dF: "distinct (map fst (FieldList (Metric node)))"
    and key: "RootFieldName node \<in> set (map fst (FieldList (Metric node)))"
  shows
    "(IsArray (Result node) \<and> expandArray L node mn = Inr rows \<longrightarrow>
        (\<forall>r \<in> set rows. FieldList (Metric r) = FieldList (Metric node))) \<and>
     (\<not> IsObject (Some val) \<and> \<not> IsArray (Some val) \<and>
      convertType L (Value (Some val)) (DesiredType node) (RootFieldName node) = Inr v \<longrightarrow>
        expandArray_each L node mn [(k, val)] (results, err) =
          (results @
             [\<lparr>RootFieldName = RootFieldName node, DesiredType = [],
               Metric = \<lparr>name = mn, FieldList = FieldList (Metric node)\<rparr>,
               Result = Some val\<rparr>],
           err))"
proof (intro conjI impI)
  assume run: "IsArray (Result node) \<and> expandArray L node mn = Inr rows"
  from expandArray_rows_inv(1) [OF dF, of node "RootFieldName node" L mn] run
  have "list_all (leafRow mn (RootFieldName node) (FieldList (Metric node))) rows" by simp
  with key show "\<forall>r \<in> set rows. FieldList (Metric r) = FieldList (Metric node)"
    by (simp add: list_all_iff leafRow_def)
next
  assume leaf: "\<not> IsObject (Some val) \<and> \<not> IsArray (Some val) \<and>
      convertType L (Value (Some val)) (DesiredType node) (RootFieldName node) = Inr v"
  let ?F = "FieldList (Metric node)"
  let ?m = "copyFields (Metric node) (AddField (RootFieldName node) v
              (copyFields (Metric node) (metric_New mn)))"
  have "FieldList ?m = ?F"
    using leaf_fields [OF dF, of "RootFieldName node" v] key
    by (simp add: FieldList_copyFields)
  moreover have "name ?m = mn" by (simp add: name_copyFields)
  ultimately have "?m = \<lparr>name = mn, FieldList = ?F\<rparr>" by (cases ?m) simp
  with leaf show "expandArray_each L node mn [(k, val)] (results, err) =
          (results @
             [\<lparr>RootFieldName = RootFieldName node, DesiredType = [],
               Metric = \<lparr>name = mn, FieldList = FieldList (Metric node)\<rparr>,
               Result = Some val\<rparr>],
           err)"
    by simp
qed

theorem expandArray_leaf_overwritten_witness:
  "distinct (map fst [(''b'', VFloat 1)]) \<and> ''b'' \<in> set (map fst [(''b'', VFloat 1)]) \<and>
   IsArray (Some (JArray [JNumber 2, JNumber 3])) \<and>
   expandArray lib0
     \<lparr>RootFieldName = ''b'', DesiredType = [],
      Metric = \<lparr>name = ''m'', FieldList = [(''b'', VFloat 1)]\<rparr>,
      Result = Some (JArray [JNumber 2, JNumber 3])\<rparr> ''m'' =
   Inr [\<lparr>RootFieldName = ''b'', DesiredType = [],
         Metric = \<lparr>name = ''m'', FieldList = [(''b'', VFloat 1)]\<rparr>, Result = Some (JNumber 2)\<rparr>,
        \<lparr>RootFieldName = ''b'', DesiredType = [],
         Metric = \<lparr>name = ''m'', FieldList = [(''b'', VFloat 1)]\<rparr>, Result = Some (JNumber 3)\<rparr>] \<and>
   list_all (\<lambda>r. FieldList (Metric r) = [(''b'', VFloat 1)])
     [\<lparr>RootFieldName = ''b'', DesiredType = [],
       Metric = \<lparr>name = ''m'', FieldList = [(''b'', VFloat 1)]\<rparr>, Result = Some (JNumber 2)\<rparr>,
      \<lparr>RootFieldName = ''b'', DesiredType = [],
       Metric = \<lparr>name = ''m'', FieldList = [(''b'', VFloat 1)]\<rparr>, Result = Some (JNumber 3)\<rparr>] \<and>
   convertType lib0 (Value (Some (JNumber 2))) [] ''b'' = Inr (VFloat 2) \<and>
   expandArray_each lib0
     \<lparr>RootFieldName = ''b'', DesiredType = [],
      Metric = \<lparr>name = ''m'', FieldList = [(''b'', VFloat 1)]\<rparr>,
      Result = Some (JArray [JNumber 2, JNumber 3])\<rparr> ''m'' [([], JNumber 2)] ([], None) =
   ([\<lparr>RootFieldName = ''b'', DesiredType = [],
      Metric = \<lparr>name = ''m'', FieldList = [(''b'', VFloat 1)]\<rparr>, Result = Some (JNumber 2)\<rparr>],
    None)"
proof -
  let ?node = "\<lparr>RootFieldName = ''b'', DesiredType = [],
      Metric = \<lparr>name = ''m'', FieldList = [(''b'', VFloat 1)]\<rparr>,
      Result = Some (JArray [JNumber 2, JNumber 3])\<rparr>"
  have d: "distinct (map fst (FieldList (Metric ?node)))" by simp
  have k: "RootFieldName ?node \<in> set (map fst (FieldList (Metric ?node)))" by simp
  have a: "IsArray (Result ?node)" by (simp add: IsArray_def)
  have c: "convertType lib0 (Value (Some (JNumber 2))) (DesiredType ?node) (RootFieldName ?node)
             = Inr (VFloat 2)"
    by (simp add: convertType_def)
  have s: "\<not> IsObject (Some (JNumber 2)) \<and> \<not> IsArray (Some (JNumber 2))"
    by (simp add: shape_defs)
  let ?rows = "[\<lparr>RootFieldName = ''b'', DesiredType = [],
         Metric = \<lparr>name = ''m'', FieldList = [(''b'', VFloat 1)]\<rparr>, Result = Some (JNumber 2)\<rparr>,
        \<lparr>RootFieldName = ''b'', DesiredType = [],
         Metric = \<lparr>name = ''m'', FieldList = [(''b'', VFloat 1)]\<rparr>, Result = Some (JNumber 3)\<rparr>]"
  have run: "expandArray lib0 ?node ''m'' = Inr ?rows"
    by (simp add: expandArray.simps shape_defs metric_defs convertType_def Let_def)
  note inst = expandArray_leaf_overwritten
    [OF d k, of lib0 "''m''" ?rows "JNumber 2" "VFloat 2" "[]" "[]" None]
  from inst a run have "\<forall>r \<in> set ?rows. FieldList (Metric r) = FieldList (Metric ?node)"
    by blast
  then have all: "list_all (\<lambda>r. FieldList (Metric r) = [(''b'', VFloat 1)]) ?rows"
    by (simp add: list_all_iff)
  from inst c s have step: "expandArray_each lib0 ?node ''m'' [([], JNumber 2)] ([], None) =
      ([\<lparr>RootFieldName = ''b'', DesiredType = [],
         Metric = \<lparr>name = ''m'', FieldList = [(''b'', VFloat 1)]\<rparr>,
         Result = Some (JNumber 2)\<rparr>], None)"
    by simp
  from run all step a c show ?thesis by simp
qed

section \<open>The selection processors\<close>





lemma combineObject_missing:
  "Result node = None \<Longrightarrow> combineObject L node nm tm = (Inr [node], Metric node)"
  by simp

lemma combineObject_Inr: "\<exists>rows. fst (combineObject L node nm tm) = Inr rows"
  by (simp split: prod.splits)

lemma processObjectFields_each_acc:
  "\<exists>ms. \<forall>t. processObjectFields_each L mn input fs t = Inr (t @ ms)"
proof (induction fs)
  case Nil
  show ?case by simp
next
  case (Cons f fs)
  then obtain ms where ms: "\<And>t. processObjectFields_each L mn input fs t = Inr (t @ ms)" by blast
  let ?root = "\<lparr>RootFieldName = lastSegment (OQuery f), DesiredType = [],
                Metric = metric_New mn, Result = GetBytes input (OQuery f)\<rparr>"
  obtain rows where rows: "fst (combineObject L ?root (NameMap f) (TypeMap f)) = Inr rows"
    using combineObject_Inr by blast
  have "\<forall>t. processObjectFields_each L mn input (f # fs) t = Inr (t @ (map Metric rows @ ms))"
    using rows ms by (simp add: Let_def del: combineObject.simps)
  then show ?case by blast
qed

lemma processObjectFields_each_append:
  "processObjectFields_each L mn input (xs @ ys) t =
     (case processObjectFields_each L mn input xs t of
        Inl e \<Rightarrow> Inl e
      | Inr t' \<Rightarrow> processObjectFields_each L mn input ys t')"
  by (induction xs arbitrary: t) (auto simp: Let_def simp del: combineObject.simps split: sum.splits)

text \<open>
  C9: an object-field rule whose query matches nothing contributes exactly one metric,
  the root row's metric with no fields: alone it makes the processor return that one
  metric, and among other rules the metric stands between the metrics of the rules
  before and after it. A basic-field rule whose query matches nothing contributes no
  row: alone it makes the basic-field processor return no metric.
\<close>

theorem processObjectFields_missing:
  "(GetBytes input (OQuery r) = None \<longrightarrow>
      processObjectFields L mn [r] input = Inr [\<lparr>name = mn, FieldList = []\<rparr>] \<and>
      (\<exists>ms1 ms2. processObjectFields L mn pre input = Inr ms1 \<and>
                 processObjectFields L mn post input = Inr ms2 \<and>
                 processObjectFields L mn (pre @ r # post) input =
                   Inr (ms1 @ [\<lparr>name = mn, FieldList = []\<rparr>] @ ms2))) \<and>
   (GetBytes input (Query b) = None \<longrightarrow> processBasicFields L mn [b] input = Inr [])"
proof (intro conjI impI)
  assume miss: "GetBytes input (OQuery r) = None"
  have one: "processObjectFields_each L mn input [r] t = Inr (t @ [\<lparr>name = mn, FieldList = []\<rparr>])" for t
    using miss by (simp add: Let_def metric_New_def)
  from one [of "[]"] show "processObjectFields L mn [r] input = Inr [\<lparr>name = mn, FieldList = []\<rparr>]"
    by (simp add: processObjectFields_def del: processObjectFields_each.simps)
  obtain ms1 where ms1: "\<And>t. processObjectFields_each L mn input pre t = Inr (t @ ms1)"
    using processObjectFields_each_acc by blast
  obtain ms2 where ms2: "\<And>t. processObjectFields_each L mn input post t = Inr (t @ ms2)"
    using processObjectFields_each_acc by blast
  have "processObjectFields_each L mn input (pre @ [r] @ post) [] =
          Inr (ms1 @ [\<lparr>name = mn, FieldList = []\<rparr>] @ ms2)"
    by (simp only: processObjectFields_each_append ms1 ms2 one sum.case append_Nil append_assoc)
  with ms1 [of "[]"] ms2 [of "[]"]
  show "\<exists>ms1 ms2. processObjectFields L mn pre input = Inr ms1 \<and>
                 processObjectFields L mn post input = Inr ms2 \<and>
                 processObjectFields L mn (pre @ r # post) input =
                   Inr (ms1 @ [\<lparr>name = mn, FieldList = []\<rparr>] @ ms2)"
    by (auto simp: processObjectFields_def simp del: processObjectFields_each.simps)
next
  assume miss: "GetBytes input (Query b) = None"
  then show "processBasicFields L mn [b] input = Inr []"
    by (simp add: processBasicFields_def expandArray.simps shape_defs Let_def combineMetrics_def)
qed

theorem processObjectFields_missing_witness:
  "GetBytes (\<lambda>q. None) (OQuery \<lparr>OQuery = ''x.y'', NameMap = Map.empty, TypeMap = Map.empty\<rparr>) = None \<and>
   processObjectFields lib0 ''m''
     [\<lparr>OQuery = ''x.y'', NameMap = Map.empty, TypeMap = Map.empty\<rparr>] (\<lambda>q. None) =
     Inr [\<lparr>name = ''m'', FieldList = []\<rparr>] \<and>
   GetBytes (\<lambda>q. None) (Query \<lparr>Query = ''x.y'', Name = [], Type = []\<rparr>) = None \<and>
   processBasicFields lib0 ''m'' [\<lparr>Query = ''x.y'', Name = [], Type = []\<rparr>] (\<lambda>q. None) = Inr []"
proof -
  let ?r = "\<lparr>OQuery = ''x.y'', NameMap = Map.empty, TypeMap = Map.empty\<rparr>"
  let ?b = "\<lparr>Query = ''x.y'', Name = [], Type = []\<rparr>"
  have m1: "GetBytes (\<lambda>q. None) (OQuery ?r) = None" by (simp add: GetBytes_def)
  have m2: "GetBytes (\<lambda>q. None) (Query ?b) = None" by (simp add: GetBytes_def)
  from processObjectFields_missing [of "\<lambda>q. None" ?r lib0 "''m''" "[]" "[]" ?b] m1 m2
  show ?thesis by blast
qed

section \<open>The rows of an array of scalars\<close>

lemma leaves_scalar: "\<not> IsArray (Some v) \<Longrightarrow> leaves v = [v]"
  by (cases v) (simp_all add: IsArray_def)

lemma uniform_Cons_array:
  "uniform (n # ns) v \<Longrightarrow> \<exists>vs. v = JArray vs \<and> length vs = n \<and> list_all (uniform ns) vs"
  by (cases v) simp_all

lemma IsArray_JArray [simp]: "IsArray (Some (JArray vs))" "\<not> IsObject (Some (JArray vs))"
  by (simp_all add: IsArray_def IsObject_def)

lemma leaf_metric:
  assumes "distinct (map fst (FieldList M))" "f \<notin> set (map fst (FieldList M))"
  shows "copyFields M (AddField f x (copyFields M (metric_New mn))) =
           \<lparr>name = mn, FieldList = FieldList M @ [(f, x)]\<rparr>"
proof -
  let ?m = "copyFields M (AddField f x (copyFields M (metric_New mn)))"
  have "FieldList ?m = FieldList M @ [(f, x)]"
    using leaf_fields [OF assms(1), of f x] assms(2) by (simp add: FieldList_copyFields)
  moreover have "name ?m = mn" by (simp add: name_copyFields)
  ultimately show ?thesis by (cases ?m) simp
qed

lemma expandArray_uniform:
  assumes dF: "distinct (map fst F)" and fnew: "f \<notin> set (map fst F)"
  shows "\<forall>ns j xs. Result node = Some j \<and> uniform ns j \<and> ns \<noteq> [] \<and>
           (length ns = 1 \<or> DesiredType node = []) \<and>
           FieldList (Metric node) = F \<and> RootFieldName node = f \<and>
           list_all2 (\<lambda>v x. convertType L (Value (Some v)) (DesiredType node) f = Inr x)
             (leaves j) xs
           \<longrightarrow> expandArray L node mn = Inr (map2 (rowOf mn f F) (leaves j) xs)"
    and "\<forall>ns xs. list_all (\<lambda>kv. uniform ns (snd kv)) kvs \<and>
           (ns = [] \<or> DesiredType node = []) \<and>
           FieldList (Metric node) = F \<and> RootFieldName node = f \<and>
           list_all2 (\<lambda>v x. convertType L (Value (Some v)) (DesiredType node) f = Inr x)
             (concat (map (\<lambda>kv. leaves (snd kv)) kvs)) xs
           \<longrightarrow> expandArray_each L node mn kvs st =
                 (fst st @ map2 (rowOf mn f F) (concat (map (\<lambda>kv. leaves (snd kv)) kvs)) xs,
                  snd st)"
proof (induction L node mn and L node mn kvs st rule: expandArray_expandArray_each.induct)
  case (1 L result metricName)
  show ?case
  proof (intro allI impI, elim conjE)
    fix ns j xs
    assume res: "Result result = Some j" and uni: "uniform ns j" and ne: "ns \<noteq> []"
      and ty: "length ns = 1 \<or> DesiredType result = []"
      and F: "FieldList (Metric result) = F" and f: "RootFieldName result = f"
      and conv: "list_all2 (\<lambda>v x. convertType L (Value (Some v)) (DesiredType result) f = Inr x)
                   (leaves j) xs"
    from ne obtain n ns' where ns: "ns = n # ns'" by (cases ns) auto
    from uni ns obtain vs where j: "j = JArray vs" and all: "list_all (uniform ns') vs"
      using uniform_Cons_array by blast
    have nobj: "\<not> IsObject (Result result)" and arr: "IsArray (Result result)"
      by (simp_all add: res j)
    have kvs: "list_all (\<lambda>kv. uniform ns' (snd kv)) (ForEach (Result result))"
      using all by (simp add: res j list_all_iff)
    have lv: "concat (map (\<lambda>kv. leaves (snd kv)) (ForEach (Result result))) = leaves j"
      by (simp add: res j comp_def)
    from ty have ty': "ns' = [] \<or> DesiredType result = []"
      by (simp add: ns)
    from "1.IH" [OF nobj arr, rule_format, where ns = ns' and xs = xs] kvs F f conv lv ty'
    have "expandArray_each L result metricName (ForEach (Result result)) ([], None) =
            (map2 (rowOf metricName f F) (leaves j) xs, None)"
      by simp
    with nobj arr show "expandArray L result metricName = Inr (map2 (rowOf metricName f F) (leaves j) xs)"
      by (subst expandArray.simps) simp
  qed
next
  case (2 L result metricName st)
  show ?case by simp
next
  case (3 L result metricName key val rest results err)
  show ?case
  proof (intro allI impI, elim conjE)
    fix ns xs
    assume all: "list_all (\<lambda>kv. uniform ns (snd kv)) ((key, val) # rest)"
      and ty: "ns = [] \<or> DesiredType result = []"
      and F: "FieldList (Metric result) = F" and f: "RootFieldName result = f"
      and conv: "list_all2 (\<lambda>v x. convertType L (Value (Some v)) (DesiredType result) f = Inr x)
                   (concat (map (\<lambda>kv. leaves (snd kv)) ((key, val) # rest))) xs"
    let ?P = "\<lambda>v x. convertType L (Value (Some v)) (DesiredType result) f = Inr x"
    let ?restl = "concat (map (\<lambda>kv. leaves (snd kv)) rest)"
    let ?m = "copyFields (Metric result) (metric_New metricName)"
    from all have uval: "uniform ns val" and urest: "list_all (\<lambda>kv. uniform ns (snd kv)) rest"
      by simp_all
    from conv have "list_all2 ?P (leaves val @ ?restl) xs" by simp
    then obtain xs1 xs2 where xs: "xs = xs1 @ xs2"
      and c1: "list_all2 ?P (leaves val) xs1" and c2: "list_all2 ?P ?restl xs2"
      by (auto simp: list_all2_append1)
    have len1: "length (leaves val) = length xs1" using c1 by (rule list_all2_lengthD)
    have m: "FieldList ?m = F"
      using dF by (simp add: FieldList_copyFields F setAll_empty)
    show "expandArray_each L result metricName ((key, val) # rest) (results, err) =
            (fst (results, err) @
               map2 (rowOf metricName f F)
                 (concat (map (\<lambda>kv. leaves (snd kv)) ((key, val) # rest))) xs,
             snd (results, err))"
    proof (cases ns)
      case Nil
      with uval have narr: "\<not> IsArray (Some val)" and nobj: "\<not> IsObject (Some val)" by simp_all
      from narr have lv: "leaves val = [val]" by (rule leaves_scalar)
      with c1 obtain x where xs1: "xs1 = [x]"
        and cx: "convertType L (Value (Some val)) (DesiredType result) (RootFieldName result) = Inr x"
        using Nil f by (auto simp: list_all2_Cons1)
      let ?row = "\<lparr>RootFieldName = RootFieldName result, DesiredType = [],
                  Metric = copyFields (Metric result) (AddField (RootFieldName result) x ?m),
                  Result = Some val\<rparr>"
      have row: "?row = rowOf metricName f F val x"
        using leaf_metric [of "Metric result" f x metricName] dF fnew
        by (simp add: rowOf_def F f)
      have pre: "list_all (\<lambda>kv. uniform ns (snd kv)) rest \<and>
           (ns = [] \<or> DesiredType result = []) \<and>
           FieldList (Metric result) = F \<and> RootFieldName result = f \<and> list_all2 ?P ?restl xs2"
        using urest ty F f c2 by blast
      note step = "3.IH"(3) [OF nobj refl narr cx, rule_format, where ns = ns and xs = xs2, OF pre]
      have "expandArray_each L result metricName ((key, val) # rest) (results, err) =
              expandArray_each L result metricName rest (results @ [?row], err)"
        using nobj narr cx by simp
      also note step
      finally show ?thesis by (simp add: row lv xs xs1)
    next
      case (Cons n ns')
      with uval obtain vs where val: "val = JArray vs" using uniform_Cons_array by blast
      have arr: "IsArray (Some val)" and nobj: "\<not> IsObject (Some val)" by (simp_all add: val)
      let ?n = "\<lparr>RootFieldName = RootFieldName result, DesiredType = [],
                 Metric = ?m, Result = Some val\<rparr>"
      from ty Cons have notype: "DesiredType result = []" by simp
      with c1 have c1': "list_all2 (\<lambda>v x. convertType L (Value (Some v)) (DesiredType ?n) f = Inr x)
                   (leaves val) xs1"
        by simp
      from "3.IH"(1) [OF nobj refl arr, rule_format, where ns = ns and j = val and xs = xs1] uval Cons m f c1'
      have run: "expandArray L ?n metricName = Inr (map2 (rowOf metricName f F) (leaves val) xs1)"
        by simp
      have pre: "list_all (\<lambda>kv. uniform ns (snd kv)) rest \<and>
           (ns = [] \<or> DesiredType result = []) \<and>
           FieldList (Metric result) = F \<and> RootFieldName result = f \<and> list_all2 ?P ?restl xs2"
        using urest ty F f c2 by blast
      note step = "3.IH"(2) [OF nobj refl arr run, rule_format, where ns = ns and xs = xs2, OF pre]
      have "expandArray_each L result metricName ((key, val) # rest) (results, err) =
              expandArray_each L result metricName rest
                (results @ map2 (rowOf metricName f F) (leaves val) xs1, err)"
        using nobj arr run by simp
      also note step
      finally show ?thesis by (simp add: xs len1)
    qed
  qed
qed

lemma length_leaves_uniform: "uniform ns j \<Longrightarrow> length (leaves j) = prod_list ns"
proof (induction ns arbitrary: j)
  case Nil
  then show ?case by (simp add: leaves_scalar)
next
  case (Cons n ns)
  then obtain vs where j: "j = JArray vs" and n: "length vs = n" and all: "list_all (uniform ns) vs"
    using uniform_Cons_array by blast
  from all Cons.IH have "\<forall>v \<in> set vs. length (leaves v) = prod_list ns"
    by (simp add: list_all_iff)
  then have "map (\<lambda>v. length (leaves v)) vs = replicate (length vs) (prod_list ns)"
    by (simp add: map_replicate_const [symmetric] cong: map_cong)
  then show ?case by (simp add: j n length_concat comp_def sum_list_replicate)
qed

lemma convertType_scalar:
  "convertType L (Value (Some v)) t f = Inr x \<Longrightarrow> \<not> IsArray (Some v) \<and> \<not> IsObject (Some v)"
  by (cases v) (simp_all add: convertType_def shape_defs)

lemma convertible_scalars:
  "list_all2 (\<lambda>v x. convertType L (Value (Some v)) t f = Inr x) vs xs \<Longrightarrow>
     list_all (\<lambda>v. \<not> IsArray (Some v) \<and> \<not> IsObject (Some v)) vs"
  by (induction vs xs rule: list_all2_induct) (auto dest: convertType_scalar)

lemma convertType_plain: "plain v \<Longrightarrow> convertType L (Value (Some v)) [] f = Inr (Value (Some v))"
  by (cases v) (simp_all add: plain_def convertType_def)

lemma leaves_flat: "list_all (\<lambda>v. \<not> IsArray (Some v)) vs \<Longrightarrow> concat (map leaves vs) = vs"
  by (induction vs) (simp_all add: leaves_scalar)

lemma map_Metric_rowOf:
  "length vs = length xs \<Longrightarrow>
     map Metric (map2 (rowOf mn f F) vs xs) = map (\<lambda>x. \<lparr>name = mn, FieldList = F @ [(f, x)]\<rparr>) xs"
  by (induction vs xs rule: list_induct2) (simp_all add: rowOf_def)

lemma map2_same: "map2 h xs (map g xs) = map (\<lambda>v. h v (g v)) xs"
  by (induction xs) simp_all

lemma processBasicFields_single:
  assumes "\<not> IsObject (GetBytes input (Query r))"
    and "expandArray L
           \<lparr>RootFieldName = fieldNameOf r, DesiredType = Type r,
            Metric = metric_New mn, Result = GetBytes input (Query r)\<rparr> mn = Inr rows"
  shows "processBasicFields L mn [r] input = Inr (map Metric rows)"
  using assms
  by (simp add: processBasicFields_def Let_def fieldNameOf_def combineMetrics_def)

lemma processBasicFields_flat:
  assumes res: "GetBytes input (Query r) = Some (JArray vs)"
    and conv: "list_all2 (\<lambda>v x. convertType L (Value (Some v)) (Type r) (fieldNameOf r) = Inr x) vs xs"
  shows "processBasicFields L mn [r] input =
           Inr (map (\<lambda>x. \<lparr>name = mn, FieldList = [(fieldNameOf r, x)]\<rparr>) xs)"
proof -
  let ?node = "\<lparr>RootFieldName = fieldNameOf r, DesiredType = Type r,
                 Metric = metric_New mn, Result = GetBytes input (Query r)\<rparr>"
  from conv have sc: "list_all (\<lambda>v. \<not> IsArray (Some v) \<and> \<not> IsObject (Some v)) vs"
    by (rule convertible_scalars)
  then have flat: "concat (map leaves vs) = vs"
    by (intro leaves_flat) (simp add: list_all_iff)
  from sc have uni: "uniform [length vs] (JArray vs)" by (simp add: list_all_iff)
  have len: "length vs = length xs" using conv by (rule list_all2_lengthD)
  have pre: "Result ?node = Some (JArray vs) \<and> uniform [length vs] (JArray vs) \<and> [length vs] \<noteq> [] \<and>
      (length [length vs] = 1 \<or> DesiredType ?node = []) \<and>
      FieldList (Metric ?node) = [] \<and> RootFieldName ?node = fieldNameOf r \<and>
      list_all2 (\<lambda>v x. convertType L (Value (Some v)) (DesiredType ?node) (fieldNameOf r) = Inr x)
        (leaves (JArray vs)) xs"
    using res uni conv flat by simp
  have "expandArray L ?node mn = Inr (map2 (rowOf mn (fieldNameOf r) []) (leaves (JArray vs)) xs)"
    by (rule expandArray_uniform(1) [of "[]" "fieldNameOf r", rule_format, OF _ _ pre]) simp_all
  then have run: "expandArray L ?node mn = Inr (map2 (rowOf mn (fieldNameOf r) []) vs xs)"
    by (simp add: flat)
  have "\<not> IsObject (GetBytes input (Query r))" by (simp add: res)
  from processBasicFields_single [OF this run] show ?thesis
    unfolding map_Metric_rowOf [OF len] by simp
qed

text \<open>
  C5, as the code has it. For a flat array of \<open>N\<close> elements that are strings, booleans
  or numbers, a basic-field rule with no declared type returns exactly \<open>N\<close> metrics in
  document order, each with the one field of the rule's name holding the element.
  With a declared type the same holds whenever every element converts: the metrics
  hold the converted elements. For an array nested to depth \<open>D\<close> with branching
  factors \<open>n1, ..., nD\<close> whose leaves are strings, booleans or numbers, and for a row
  with no declared type whose accumulated fields have distinct keys that do not
  include the row's field name, the expansion returns exactly \<open>n1 * ... * nD\<close> rows in
  document order, each holding the accumulated fields followed by the one leaf under
  the field name.
\<close>

theorem expandArray_row_count:
  "(GetBytes input (Query r) = Some (JArray vs) \<and> Type r = [] \<and> list_all plain vs \<longrightarrow>
      processBasicFields L mn [r] input =
        Inr (map (\<lambda>v. \<lparr>name = mn, FieldList = [(fieldNameOf r, Value (Some v))]\<rparr>) vs)) \<and>
   (GetBytes input (Query r) = Some (JArray vs) \<and>
    list_all2 (\<lambda>v x. convertType L (Value (Some v)) (Type r) (fieldNameOf r) = Inr x) vs xs \<longrightarrow>
      length xs = length vs \<and>
      processBasicFields L mn [r] input =
        Inr (map (\<lambda>x. \<lparr>name = mn, FieldList = [(fieldNameOf r, x)]\<rparr>) xs)) \<and>
   (Result node = Some j \<and> uniform ns j \<and> ns \<noteq> [] \<and> DesiredType node = [] \<and>
    list_all plain (leaves j) \<and>
    distinct (map fst (FieldList (Metric node))) \<and>
    RootFieldName node \<notin> set (map fst (FieldList (Metric node))) \<longrightarrow>
      length (leaves j) = prod_list ns \<and>
      expandArray L node mn =
        Inr (map (\<lambda>v. rowOf mn (RootFieldName node) (FieldList (Metric node)) v (Value (Some v)))
               (leaves j)))"
proof (intro conjI impI)
  assume a: "GetBytes input (Query r) = Some (JArray vs) \<and> Type r = [] \<and> list_all plain vs"
  then have res: "GetBytes input (Query r) = Some (JArray vs)" and ty: "Type r = []"
    and pl: "list_all plain vs" by simp_all
  from pl have "list_all2 (\<lambda>v x. convertType L (Value (Some v)) [] (fieldNameOf r) = Inr x)
               vs (map (\<lambda>v. Value (Some v)) vs)"
    by (simp add: list_all2_conv_all_nth list_all_iff convertType_plain)
  then have "list_all2 (\<lambda>v x. convertType L (Value (Some v)) (Type r) (fieldNameOf r) = Inr x)
               vs (map (\<lambda>v. Value (Some v)) vs)"
    by (simp only: ty)
  with res have "processBasicFields L mn [r] input =
      Inr (map (\<lambda>x. \<lparr>name = mn, FieldList = [(fieldNameOf r, x)]\<rparr>) (map (\<lambda>v. Value (Some v)) vs))"
    by (rule processBasicFields_flat)
  then show "processBasicFields L mn [r] input =
        Inr (map (\<lambda>v. \<lparr>name = mn, FieldList = [(fieldNameOf r, Value (Some v))]\<rparr>) vs)"
    by (simp add: comp_def)
next
  assume b: "GetBytes input (Query r) = Some (JArray vs) \<and>
    list_all2 (\<lambda>v x. convertType L (Value (Some v)) (Type r) (fieldNameOf r) = Inr x) vs xs"
  from b have res: "GetBytes input (Query r) = Some (JArray vs)" by (rule conjunct1)
  from b have conv:
    "list_all2 (\<lambda>v x. convertType L (Value (Some v)) (Type r) (fieldNameOf r) = Inr x) vs xs"
    by (rule conjunct2)
  from list_all2_lengthD [OF conv] show "length xs = length vs" by simp
  from res conv show "processBasicFields L mn [r] input =
        Inr (map (\<lambda>x. \<lparr>name = mn, FieldList = [(fieldNameOf r, x)]\<rparr>) xs)"
    by (rule processBasicFields_flat)
next
  assume c: "Result node = Some j \<and> uniform ns j \<and> ns \<noteq> [] \<and> DesiredType node = [] \<and>
    list_all plain (leaves j) \<and>
    distinct (map fst (FieldList (Metric node))) \<and>
    RootFieldName node \<notin> set (map fst (FieldList (Metric node)))"
  then show "length (leaves j) = prod_list ns" by (simp add: length_leaves_uniform)
  let ?ys = "map (\<lambda>v. Value (Some v)) (leaves j)"
  from c have dF: "distinct (map fst (FieldList (Metric node)))"
    and fnew: "RootFieldName node \<notin> set (map fst (FieldList (Metric node)))"
    and notype: "DesiredType node = []" and pl: "list_all plain (leaves j)"
    by simp_all
  from pl have "list_all2 (\<lambda>v x. convertType L (Value (Some v)) [] (RootFieldName node) = Inr x)
                  (leaves j) ?ys"
    by (simp add: list_all2_conv_all_nth list_all_iff convertType_plain)
  then have cv: "list_all2 (\<lambda>v x. convertType L (Value (Some v)) (DesiredType node)
                    (RootFieldName node) = Inr x) (leaves j) ?ys"
    by (simp only: notype)
  from c notype cv have pre: "Result node = Some j \<and> uniform ns j \<and> ns \<noteq> [] \<and>
      (length ns = 1 \<or> DesiredType node = []) \<and>
      FieldList (Metric node) = FieldList (Metric node) \<and> RootFieldName node = RootFieldName node \<and>
      list_all2 (\<lambda>v x. convertType L (Value (Some v)) (DesiredType node) (RootFieldName node) = Inr x)
        (leaves j) ?ys"
    by blast
  have "expandArray L node mn =
        Inr (map2 (rowOf mn (RootFieldName node) (FieldList (Metric node))) (leaves j) ?ys)"
    by (rule expandArray_uniform(1) [OF dF fnew, rule_format, OF pre])
  then show "expandArray L node mn =
        Inr (map (\<lambda>v. rowOf mn (RootFieldName node) (FieldList (Metric node)) v (Value (Some v)))
               (leaves j))"
    by (simp add: map2_same)
qed

theorem expandArray_row_count_witness:
  "list_all plain [JNumber 1, JString ''a'', JBool True] \<and>
   processBasicFields lib0 ''m'' [\<lparr>Query = ''a.b'', Name = [], Type = []\<rparr>]
     (\<lambda>q. Some (JArray [JNumber 1, JString ''a'', JBool True])) =
     Inr [\<lparr>name = ''m'', FieldList = [(''b'', VFloat 1)]\<rparr>,
          \<lparr>name = ''m'', FieldList = [(''b'', VString ''a'')]\<rparr>,
          \<lparr>name = ''m'', FieldList = [(''b'', VBool True)]\<rparr>] \<and>
   list_all2 (\<lambda>v x. convertType lib0 (Value (Some v)) ''int'' ''n'' = Inr x)
     [JString ''42'', JBool True] [VInt 42, VInt 1] \<and>
   processBasicFields lib0 ''m'' [\<lparr>Query = ''a.b'', Name = ''n'', Type = ''int''\<rparr>]
     (\<lambda>q. Some (JArray [JString ''42'', JBool True])) =
     Inr [\<lparr>name = ''m'', FieldList = [(''n'', VInt 42)]\<rparr>,
          \<lparr>name = ''m'', FieldList = [(''n'', VInt 1)]\<rparr>] \<and>
   uniform [2, 3]
     (JArray [JArray [JNumber 1, JNumber 2, JNumber 3], JArray [JNumber 4, JNumber 5, JNumber 6]]) \<and>
   list_all plain [JNumber 1, JNumber 2, JNumber 3, JNumber 4, JNumber 5, JNumber 6] \<and>
   map (\<lambda>row. FieldList (Metric row))
     (projr (expandArray lib0
        \<lparr>RootFieldName = ''items'', DesiredType = [],
         Metric = \<lparr>name = ''m'', FieldList = [(''a'', VFloat 0)]\<rparr>,
         Result = Some (JArray [JArray [JNumber 1, JNumber 2, JNumber 3],
                                JArray [JNumber 4, JNumber 5, JNumber 6]])\<rparr> ''m'')) =
     [[(''a'', VFloat 0), (''items'', VFloat 1)], [(''a'', VFloat 0), (''items'', VFloat 2)],
      [(''a'', VFloat 0), (''items'', VFloat 3)], [(''a'', VFloat 0), (''items'', VFloat 4)],
      [(''a'', VFloat 0), (''items'', VFloat 5)], [(''a'', VFloat 0), (''items'', VFloat 6)]]"
proof -
  let ?r1 = "\<lparr>Query = ''a.b'', Name = [], Type = []\<rparr>"
  let ?vs1 = "[JNumber 1, JString ''a'', JBool True]"
  let ?r2 = "\<lparr>Query = ''a.b'', Name = ''n'', Type = ''int''\<rparr>"
  let ?vs2 = "[JString ''42'', JBool True]"
  let ?xs2 = "[VInt 42, VInt 1]"
  let ?j = "JArray [JArray [JNumber 1, JNumber 2, JNumber 3],
                    JArray [JNumber 4, JNumber 5, JNumber 6]]"
  let ?node = "\<lparr>RootFieldName = ''items'', DesiredType = [],
         Metric = \<lparr>name = ''m'', FieldList = [(''a'', VFloat 0)]\<rparr>, Result = Some ?j\<rparr>"
  have n1: "fieldNameOf ?r1 = ''b''" by (simp add: fieldNameOf_def lastSegment_def)
  have n2: "fieldNameOf ?r2 = ''n''" by (simp add: fieldNameOf_def)
  have p1: "list_all plain ?vs1" by (simp add: plain_def)
  have c2: "list_all2 (\<lambda>v x. convertType lib0 (Value (Some v)) ''int'' ''n'' = Inr x) ?vs2 ?xs2"
    by (simp add: convertType_def Atoi_def digit_of_def)
  have u: "uniform [2, 3] ?j" by (simp add: shape_defs)
  have c3: "list_all plain (leaves ?j)" by (simp add: plain_def)
  from expandArray_row_count
    [where input = "\<lambda>q. Some (JArray ?vs1)" and r = ?r1 and vs = ?vs1 and L = lib0
       and mn = "''m''" and xs = "[]" and node = ?node and j = ?j and ns = "[2, 3]"]
    p1 u c3
  have a: "processBasicFields lib0 ''m'' [?r1] (\<lambda>q. Some (JArray ?vs1)) =
      Inr (map (\<lambda>v. \<lparr>name = ''m'', FieldList = [(fieldNameOf ?r1, Value (Some v))]\<rparr>) ?vs1)"
    and c: "expandArray lib0 ?node ''m'' =
      Inr (map (\<lambda>v. rowOf ''m'' ''items'' [(''a'', VFloat 0)] v (Value (Some v))) (leaves ?j))"
    by (simp_all add: GetBytes_def)
  from expandArray_row_count
    [where input = "\<lambda>q. Some (JArray ?vs2)" and r = ?r2 and vs = ?vs2 and L = lib0
       and mn = "''m''" and xs = ?xs2] c2
  have b: "processBasicFields lib0 ''m'' [?r2] (\<lambda>q. Some (JArray ?vs2)) =
      Inr (map (\<lambda>x. \<lparr>name = ''m'', FieldList = [(fieldNameOf ?r2, x)]\<rparr>) ?xs2)"
    by (simp add: GetBytes_def n2)
  from a b c p1 c2 u c3 show ?thesis by (simp add: n1 n2 rowOf_def)
qed

text \<open>
  C5 as stated fails for a flat array of one scalar that does not convert: \<^verbatim>\<open>[null]\<close>
  with no declared type, and \<^verbatim>\<open>["x"]\<close> with the declared type int, give no metric.
\<close>

theorem expandArray_row_count_null:
  "processBasicFields lib0 ''m'' [\<lparr>Query = ''a'', Name = [], Type = []\<rparr>]
     (\<lambda>q. Some (JArray [JNull])) = Inr [] \<and>
   processBasicFields lib0 ''m'' [\<lparr>Query = ''a'', Name = [], Type = ''int''\<rparr>]
     (\<lambda>q. Some (JArray [JString ''x''])) = Inr []"
  by (simp add: processBasicFields_def GetBytes_def expandArray.simps shape_defs metric_defs
        convertType_def Atoi_def digit_of_def Let_def combineMetrics_def)

section \<open>Two basic-field rules\<close>

lemma expandArray_Inr_not_object: "expandArray L node mn = Inr rows \<Longrightarrow> \<not> IsObject (Result node)"
  by (subst (asm) expandArray.simps) (simp split: if_splits)

lemma fresh_rows:
  assumes run: "expandArray L
           \<lparr>RootFieldName = f, DesiredType = t, Metric = metric_New mn, Result = res\<rparr> mn = Inr rows"
  shows "list_all (\<lambda>r. \<exists>x. Metric r = \<lparr>name = mn, FieldList = [(f, x)]\<rparr>) rows"
proof (cases "IsArray res")
  case True
  let ?node = "\<lparr>RootFieldName = f, DesiredType = t, Metric = metric_New mn, Result = res\<rparr>"
  have "list_all (leafRow mn f []) rows"
    using expandArray_rows_inv(1) [of "[]" ?node f L mn] True run by simp
  then show ?thesis
  proof (rule list.pred_mono_strong)
    fix r
    assume "leafRow mn f [] r"
    then have "name (Metric r) = mn" and "FieldList (Metric r) = [(f, snd (last (FieldList (Metric r))))]"
      by (simp_all add: leafRow_def)
    then have "Metric r = \<lparr>name = mn, FieldList = [(f, snd (last (FieldList (Metric r))))]\<rparr>"
      by (cases "Metric r") simp
    then show "\<exists>x. Metric r = \<lparr>name = mn, FieldList = [(f, x)]\<rparr>" by blast
  qed
next
  case False
  from run have nobj: "\<not> IsObject res" using expandArray_Inr_not_object by fastforce
  show ?thesis
  proof (cases "Exists res")
    case True
    with run False nobj obtain v where
      "rows = [\<lparr>RootFieldName = f, DesiredType = t, Metric = AddField f v (metric_New mn), Result = res\<rparr>]"
      by (subst (asm) expandArray.simps) (auto split: sum.splits)
    then show ?thesis by (auto simp: metric_defs)
  next
    case nex: False
    with run False nobj have "rows = []"
      by (subst (asm) expandArray.simps) simp
    then show ?thesis by simp
  qed
qed

text \<open>
  C3, as the code has it. Rule \<open>A\<close> yields a group of two rows and rule \<open>B\<close> a group
  of three. Each row of a group holds one field, under its rule's field name. In
  either configuration order the processor returns exactly three metrics, the ones of
  \<open>B\<close>'s group in their order. When the two field names differ, each holds \<open>B\<close>'s own
  field and then \<open>A\<close>'s field with the value of \<open>A\<close>'s last row (every row of \<open>A\<close> is
  copied onto every row of \<open>B\<close>, and the last copy stays). When the two field names
  are the same, each holds that one field with the value of \<open>A\<close>'s last row. None of
  \<open>A\<close>'s rows is returned.
\<close>

theorem processBasicFields_two_rules:
  assumes A: "expandArray L
                \<lparr>RootFieldName = fieldNameOf A, DesiredType = Type A, Metric = metric_New mn,
                 Result = GetBytes input (Query A)\<rparr> mn = Inr ra"
    and la: "length ra = 2"
    and B: "expandArray L
                \<lparr>RootFieldName = fieldNameOf B, DesiredType = Type B, Metric = metric_New mn,
                 Result = GetBytes input (Query B)\<rparr> mn = Inr rb"
    and lb: "length rb = 3"
  shows "\<exists>x1 x2 y1 y2 y3.
           map Metric ra = [\<lparr>name = mn, FieldList = [(fieldNameOf A, x1)]\<rparr>,
                            \<lparr>name = mn, FieldList = [(fieldNameOf A, x2)]\<rparr>] \<and>
           map Metric rb = [\<lparr>name = mn, FieldList = [(fieldNameOf B, y1)]\<rparr>,
                            \<lparr>name = mn, FieldList = [(fieldNameOf B, y2)]\<rparr>,
                            \<lparr>name = mn, FieldList = [(fieldNameOf B, y3)]\<rparr>] \<and>
           processBasicFields L mn [A, B] input =
             Inr (map (\<lambda>y. \<lparr>name = mn,
                              FieldList = (if fieldNameOf A = fieldNameOf B
                                           then [(fieldNameOf B, x2)]
                                           else [(fieldNameOf B, y), (fieldNameOf A, x2)])\<rparr>)
                    [y1, y2, y3]) \<and>
           processBasicFields L mn [B, A] input = processBasicFields L mn [A, B] input"
proof -
  from la obtain r1 r2 where ra: "ra = [r1, r2]"
    by (cases ra; cases "tl ra"; cases "tl (tl ra)") auto
  from lb obtain s1 s2 s3 where rb: "rb = [s1, s2, s3]"
    by (cases rb; cases "tl rb"; cases "tl (tl rb)"; cases "tl (tl (tl rb))") auto
  from fresh_rows [OF A] ra obtain x1 x2 where
    ma: "Metric r1 = \<lparr>name = mn, FieldList = [(fieldNameOf A, x1)]\<rparr>"
        "Metric r2 = \<lparr>name = mn, FieldList = [(fieldNameOf A, x2)]\<rparr>"
    by auto
  from fresh_rows [OF B] rb obtain y1 y2 y3 where
    mb: "Metric s1 = \<lparr>name = mn, FieldList = [(fieldNameOf B, y1)]\<rparr>"
        "Metric s2 = \<lparr>name = mn, FieldList = [(fieldNameOf B, y2)]\<rparr>"
        "Metric s3 = \<lparr>name = mn, FieldList = [(fieldNameOf B, y3)]\<rparr>"
    by auto
  have nA: "\<not> IsObject (GetBytes input (Query A))"
    using expandArray_Inr_not_object [OF A] by simp
  have nB: "\<not> IsObject (GetBytes input (Query B))"
    using expandArray_Inr_not_object [OF B] by simp
  have eAB: "processBasicFields_each L mn input [A, B] [] = Inr [map Metric ra, map Metric rb]"
    using nA nB A B by (simp add: Let_def fieldNameOf_def)
  have eBA: "processBasicFields_each L mn input [B, A] [] = Inr [map Metric rb, map Metric ra]"
    using nA nB A B by (simp add: Let_def fieldNameOf_def)
  have sAB: "sort_key length [map Metric ra, map Metric rb] = [map Metric ra, map Metric rb]"
    by (simp add: la lb)
  have sBA: "sort_key length [map Metric rb, map Metric ra] = [map Metric ra, map Metric rb]"
    by (simp add: la lb)
  have comb: "combineMetrics [map Metric ra, map Metric rb] =
      [map Metric ra,
       map (\<lambda>y. \<lparr>name = mn,
                  FieldList = (if fieldNameOf A = fieldNameOf B
                               then [(fieldNameOf B, x2)]
                               else [(fieldNameOf B, y), (fieldNameOf A, x2)])\<rparr>) [y1, y2, y3]]"
    by (simp add: combineMetrics_def ra rb ma mb copyFields_def AddField_def)
  have AB: "processBasicFields L mn [A, B] input =
             Inr (map (\<lambda>y. \<lparr>name = mn,
                              FieldList = (if fieldNameOf A = fieldNameOf B
                                           then [(fieldNameOf B, x2)]
                                           else [(fieldNameOf B, y), (fieldNameOf A, x2)])\<rparr>)
                    [y1, y2, y3])"
    by (simp add: processBasicFields_def eAB sAB comb Let_def
          del: processBasicFields_each.simps sort_key_simps)
  have BA: "processBasicFields L mn [B, A] input = processBasicFields L mn [A, B] input"
    by (simp add: processBasicFields_def eAB eBA sAB sBA
          del: processBasicFields_each.simps sort_key_simps)
  from ra rb ma mb AB BA show ?thesis by auto
qed

theorem processBasicFields_two_rules_witness:
  "processBasicFields lib0 ''m''
     [\<lparr>Query = ''a'', Name = [], Type = []\<rparr>, \<lparr>Query = ''b'', Name = [], Type = []\<rparr>]
     (\<lambda>q. if q = ''a'' then Some (JArray [JNumber 1, JNumber 2])
          else Some (JArray [JNumber 10, JNumber 20, JNumber 30])) =
     Inr [\<lparr>name = ''m'', FieldList = [(''b'', VFloat 10), (''a'', VFloat 2)]\<rparr>,
          \<lparr>name = ''m'', FieldList = [(''b'', VFloat 20), (''a'', VFloat 2)]\<rparr>,
          \<lparr>name = ''m'', FieldList = [(''b'', VFloat 30), (''a'', VFloat 2)]\<rparr>] \<and>
   processBasicFields lib0 ''m''
     [\<lparr>Query = ''b'', Name = [], Type = []\<rparr>, \<lparr>Query = ''a'', Name = [], Type = []\<rparr>]
     (\<lambda>q. if q = ''a'' then Some (JArray [JNumber 1, JNumber 2])
          else Some (JArray [JNumber 10, JNumber 20, JNumber 30])) =
     Inr [\<lparr>name = ''m'', FieldList = [(''b'', VFloat 10), (''a'', VFloat 2)]\<rparr>,
          \<lparr>name = ''m'', FieldList = [(''b'', VFloat 20), (''a'', VFloat 2)]\<rparr>,
          \<lparr>name = ''m'', FieldList = [(''b'', VFloat 30), (''a'', VFloat 2)]\<rparr>]"
proof -
  let ?input = "\<lambda>q. if q = ''a'' then Some (JArray [JNumber 1, JNumber 2])
                     else Some (JArray [JNumber 10, JNumber 20, JNumber 30])"
  let ?A = "\<lparr>Query = ''a'', Name = [], Type = []\<rparr>"
  let ?B = "\<lparr>Query = ''b'', Name = [], Type = []\<rparr>"
  let ?ra = "[\<lparr>RootFieldName = ''a'', DesiredType = [],
               Metric = \<lparr>name = ''m'', FieldList = [(''a'', VFloat 1)]\<rparr>, Result = Some (JNumber 1)\<rparr>,
              \<lparr>RootFieldName = ''a'', DesiredType = [],
               Metric = \<lparr>name = ''m'', FieldList = [(''a'', VFloat 2)]\<rparr>, Result = Some (JNumber 2)\<rparr>]"
  let ?rb = "[\<lparr>RootFieldName = ''b'', DesiredType = [],
               Metric = \<lparr>name = ''m'', FieldList = [(''b'', VFloat 10)]\<rparr>, Result = Some (JNumber 10)\<rparr>,
              \<lparr>RootFieldName = ''b'', DesiredType = [],
               Metric = \<lparr>name = ''m'', FieldList = [(''b'', VFloat 20)]\<rparr>, Result = Some (JNumber 20)\<rparr>,
              \<lparr>RootFieldName = ''b'', DesiredType = [],
               Metric = \<lparr>name = ''m'', FieldList = [(''b'', VFloat 30)]\<rparr>, Result = Some (JNumber 30)\<rparr>]"
  have nA: "fieldNameOf ?A = ''a''" and nB: "fieldNameOf ?B = ''b''"
    by (simp_all add: fieldNameOf_def lastSegment_def)
  have A: "expandArray lib0
             \<lparr>RootFieldName = fieldNameOf ?A, DesiredType = Type ?A, Metric = metric_New ''m'',
              Result = GetBytes ?input (Query ?A)\<rparr> ''m'' = Inr ?ra"
    by (simp add: nA GetBytes_def expandArray.simps shape_defs metric_defs convertType_def Let_def)
  have B: "expandArray lib0
             \<lparr>RootFieldName = fieldNameOf ?B, DesiredType = Type ?B, Metric = metric_New ''m'',
              Result = GetBytes ?input (Query ?B)\<rparr> ''m'' = Inr ?rb"
    by (simp add: nB GetBytes_def expandArray.simps shape_defs metric_defs convertType_def Let_def)
  have la: "length ?ra = 2" and lb: "length ?rb = 3" by simp_all
  from processBasicFields_two_rules [OF A la B lb] show ?thesis
    by (auto simp: nA nB)
qed

text \<open>
  C3 as stated fails when both rules have the same field name, as two rules without a
  name whose queries end in the same segment do: for \<^verbatim>\<open>a.v = [1, 2]\<close> and
  \<^verbatim>\<open>b.v = [10, 20, 30]\<close> each of the three metrics holds the single field \<open>v = 2\<close>,
  and none of \<open>B\<close>'s values.
\<close>

theorem processBasicFields_two_rules_same_name:
  "processBasicFields lib0 ''m''
     [\<lparr>Query = ''a.v'', Name = [], Type = []\<rparr>, \<lparr>Query = ''b.v'', Name = [], Type = []\<rparr>]
     (\<lambda>q. if q = ''a.v'' then Some (JArray [JNumber 1, JNumber 2])
          else Some (JArray [JNumber 10, JNumber 20, JNumber 30])) =
     Inr [\<lparr>name = ''m'', FieldList = [(''v'', VFloat 2)]\<rparr>,
          \<lparr>name = ''m'', FieldList = [(''v'', VFloat 2)]\<rparr>,
          \<lparr>name = ''m'', FieldList = [(''v'', VFloat 2)]\<rparr>]"
  by (simp add: processBasicFields_def GetBytes_def expandArray.simps shape_defs metric_defs
        convertType_def lastSegment_def Let_def combineMetrics_def)

end
